theory Spec2Isabelle
  imports Complex_Main
begin

section \<open>Data model\<close>

text \<open>
  The relational store read and written by \<^verbatim>\<open>src/routes/orderRoutes.js\<close>. A table is
  the list of its rows, in insertion order; only the columns the order routes read or
  write are kept. DECIMAL columns and the JavaScript numbers obtained from them by
  \<^verbatim>\<open>parseFloat\<close> are exact rationals; integer ids and quantities are \<open>int\<close>;
  a nullable column is an \<open>option\<close>.
\<close>

type_synonym money = rat

datatype order_status = Pending | Preparing | Ready | Delivered | Cancelled

datatype transaction_type = Addition | Deduction

record user_row =
  user_id :: int
  user_role :: string

record menu_item_row =
  mi_id :: int
  mi_availability :: bool
  mi_regular_price :: money
  mi_sale_price :: "money option"

record menu_item_supplement_row =
  mis_menu_item_id :: int
  mis_supplement_id :: int
  mis_additional_price :: "money option"

record breakfast_row =
  bf_id :: int
  bf_availability :: bool
  bf_price :: money

record option_group_row =
  bog_id :: int
  bog_breakfast_id :: "int option"
  bog_is_required :: bool
  bog_title :: "string option"

record group_mapping_row =
  bogm_breakfast_id :: int
  bogm_option_group_id :: int

record breakfast_option_row =
  bo_id :: int
  bo_breakfast_id :: "int option"
  bo_group_id :: int
  bo_additional_price :: "money option"

record promotion_row =
  promo_id :: int
  promo_discount_percentage :: money
  promo_item_id :: "int option"
  promo_start_date :: int
  promo_end_date :: int
  promo_active :: bool

text \<open>
  One row of \<^verbatim>\<open>menu_item_ingredients\<close>, \<^verbatim>\<open>supplement_ingredients\<close>,
  \<^verbatim>\<open>breakfast_ingredients\<close> or \<^verbatim>\<open>breakfast_option_ingredients\<close>: the consuming
  entity, the ingredient and the quantity consumed per unit.
\<close>

record recipe_row =
  rc_owner_id :: int
  rc_ingredient_id :: int
  rc_quantity :: money

record catalog =
  users :: "user_row list"
  menu_items :: "menu_item_row list"
  menu_item_supplements :: "menu_item_supplement_row list"
  breakfasts :: "breakfast_row list"
  breakfast_option_groups :: "option_group_row list"
  breakfast_option_group_mappings :: "group_mapping_row list"
  breakfast_options :: "breakfast_option_row list"
  promotions :: "promotion_row list"
  menu_item_ingredients :: "recipe_row list"
  supplement_ingredients :: "recipe_row list"
  breakfast_ingredients :: "recipe_row list"
  breakfast_option_ingredients :: "recipe_row list"

record table_row =
  tbl_id :: int
  tbl_number :: int
  tbl_status :: string

record order_row =
  ord_id :: int
  ord_total_price :: money
  ord_type :: string
  ord_delivery_address :: "string option"
  ord_promotion_id :: "int option"
  ord_table_id :: "int option"
  ord_session_id :: string
  ord_notes :: "string option"
  ord_status :: order_status
  ord_approved :: bool

record order_item_row =
  oi_id :: int
  oi_order_id :: int
  oi_item_id :: "int option"
  oi_breakfast_id :: "int option"
  oi_quantity :: int
  oi_unit_price :: money
  oi_supplement_id :: "int option"

record breakfast_order_option_row =
  boo_order_item_id :: int
  boo_breakfast_option_id :: int

record ingredient_row =
  ing_id :: int
  ing_name :: string
  ing_quantity_in_stock :: money

record stock_transaction_row =
  st_ingredient_id :: int
  st_quantity :: money
  st_transaction_type :: transaction_type
  st_order_id :: "int option"
  st_reason :: string

record device_order_limit_row =
  dol_device_fingerprint :: string
  dol_order_timestamp :: int
  dol_device_id :: string

record notification_row =
  ntf_id :: int
  ntf_type :: string
  ntf_reference_id :: int

record db =
  cat :: catalog
  tables :: "table_row list"
  orders :: "order_row list"
  order_items :: "order_item_row list"
  breakfast_order_options :: "breakfast_order_option_row list"
  ingredients :: "ingredient_row list"
  stock_transactions :: "stock_transaction_row list"
  device_order_limits :: "device_order_limit_row list"
  notifications :: "notification_row list"

text \<open>The decoded token a request carries in \<^verbatim>\<open>req.user\<close>.\<close>

record req_user =
  ru_id :: int
  ru_role :: string

datatype group_label = Title string | GroupNo int

datatype error =
    Forbidden
  | InvalidOrderId
  | OrderNotFound
  | InvalidApprovedValue
  | AlreadyApproved
  | AlreadyDeducted
  | AlreadyCancelled
  | AlreadyRestored
  | IngredientNotFound int
  | IngredientNotFoundRestoring int
  | InsufficientStock string money money
  | InvalidDeviceId
  | RateLimitExceeded
  | InvalidSessionId
  | DuplicateOrder
  | EmptyOrder
  | InvalidOrderType
  | TableIdRequired
  | DeliveryAddressRequired
  | InvalidItemId int
  | InvalidQuantity int
  | InvalidUnitPrice int
  | ItemUnavailable int
  | InvalidSupplement int "int list" "int list"
  | PriceMismatch int money money
  | InvalidBreakfastId int
  | InvalidBreakfastQuantity int
  | InvalidBreakfastUnitPrice int
  | BreakfastUnavailable int
  | InvalidOption int "int list" "int list"
  | MissingRequiredGroup int "group_label list"
  | BreakfastPriceBelowExpected int money money
  | TableDoesNotExist
  | TableReserved
  | TotalPriceMismatch money money
  | InternalError

datatype reply = OrderCreated int | OrderApproved | OrderCancelled | OrderStatusUpdated

section \<open>Shared helpers\<close>

text \<open>JavaScript truthiness of a nullable id: \<^verbatim>\<open>null\<close> and \<^verbatim>\<open>0\<close> are falsy.\<close>

definition truthy :: "int option \<Rightarrow> bool" where
  "truthy x = (case x of None \<Rightarrow> False | Some n \<Rightarrow> n \<noteq> 0)"

text \<open>\<^verbatim>\<open>x || 0\<close> on a number that may be \<^verbatim>\<open>undefined\<close> or \<^verbatim>\<open>null\<close>.\<close>

definition or0 :: "money option \<Rightarrow> money" where
  "or0 x = (case x of None \<Rightarrow> 0 | Some v \<Rightarrow> v)"

text \<open>
  A JavaScript \<^verbatim>\<open>Map\<close>: an association list in insertion order; \<^verbatim>\<open>get\<close> is
  \<open>map_of\<close>, \<^verbatim>\<open>set\<close> overwrites an existing key in place and appends a new one.
\<close>

fun map_set :: "'k \<Rightarrow> 'v \<Rightarrow> ('k \<times> 'v) list \<Rightarrow> ('k \<times> 'v) list" where
  "map_set k v [] = [(k, v)]"
| "map_set k v ((k', v') # m) = (if k' = k then (k, v) # m else (k', v') # map_set k v m)"

text \<open>
  \<^verbatim>\<open>checkAdminOrServer\<close> (orderRoutes.js, lines 11-15).
\<close>

definition checkAdminOrServer :: "db \<Rightarrow> int \<Rightarrow> bool" where
  "checkAdminOrServer s userId =
     (if userId = 0 then False
      else case filter (\<lambda>u. user_id u = userId) (users (cat s)) of
             [] \<Rightarrow> False
           | u # _ \<Rightarrow> user_role u = ''admin'' \<or> user_role u = ''server'')"

definition authorized :: "db \<Rightarrow> req_user option \<Rightarrow> bool" where
  "authorized s user = (case user of None \<Rightarrow> False | Some u \<Rightarrow> checkAdminOrServer s (ru_id u))"

section \<open>Stock ledger\<close>

text \<open>
  The ingredient requirement map. The source computes it with the same block of code
  in the auto-approval branch of POST /orders (lines 448-505), in
  POST /orders/:id/approve (lines 924-987) and in POST /orders/:id/cancel
  (lines 1185-1241). \<open>add_usage\<close> is one inner loop: every row \<open>ing\<close> of a
  consumption mapping adds \<^verbatim>\<open>parseFloat(ing.ingredient_quantity) * quantity\<close> to the
  entry of its ingredient.
\<close>

definition add_usage :: "money \<Rightarrow> recipe_row list \<Rightarrow> (int \<times> money) list \<Rightarrow> (int \<times> money) list" where
  "add_usage quantity rows ingredientUsage =
     fold (\<lambda>ing usage.
         map_set (rc_ingredient_id ing)
           (or0 (map_of usage (rc_ingredient_id ing)) + rc_quantity ing * quantity) usage)
       rows ingredientUsage"

definition recipe_of :: "recipe_row list \<Rightarrow> int \<Rightarrow> recipe_row list" where
  "recipe_of rows owner = filter (\<lambda>r. rc_owner_id r = owner) rows"

definition item_usage :: "catalog \<Rightarrow> order_item_row \<Rightarrow> (int \<times> money) list \<Rightarrow> (int \<times> money) list" where
  "item_usage c item usage0 =
     (let quantity = of_int (oi_quantity item);
          usage1 = (if truthy (oi_item_id item)
                    then add_usage quantity (recipe_of (menu_item_ingredients c) (the (oi_item_id item))) usage0
                    else usage0);
          usage2 = (if truthy (oi_supplement_id item)
                    then add_usage quantity (recipe_of (supplement_ingredients c) (the (oi_supplement_id item))) usage1
                    else usage1)
      in if truthy (oi_breakfast_id item)
         then add_usage quantity (recipe_of (breakfast_ingredients c) (the (oi_breakfast_id item))) usage2
         else usage2)"

text \<open>A selected breakfast option adds its ingredient quantities as they are.\<close>

definition option_usage :: "catalog \<Rightarrow> int \<Rightarrow> (int \<times> money) list \<Rightarrow> (int \<times> money) list" where
  "option_usage c optionId usage0 =
     fold (\<lambda>ing usage.
         map_set (rc_ingredient_id ing)
           (or0 (map_of usage (rc_ingredient_id ing)) + rc_quantity ing) usage)
       (recipe_of (breakfast_option_ingredients c) optionId) usage0"

text \<open>The two queries that gather the order's lines and its selected options.\<close>

definition orderItems_of :: "db \<Rightarrow> int \<Rightarrow> order_item_row list" where
  "orderItems_of s orderId = filter (\<lambda>oi. oi_order_id oi = orderId) (order_items s)"

definition breakfastOptions_of :: "db \<Rightarrow> int \<Rightarrow> int list" where
  "breakfastOptions_of s orderId =
     concat (map (\<lambda>boo.
         map (\<lambda>oi. boo_breakfast_option_id boo)
           (filter (\<lambda>oi. boo_order_item_id boo = oi_id oi \<and> oi_order_id oi = orderId) (order_items s)))
       (breakfast_order_options s))"

definition ingredientUsage :: "db \<Rightarrow> int \<Rightarrow> (int \<times> money) list" where
  "ingredientUsage s orderId =
     fold (option_usage (cat s)) (breakfastOptions_of s orderId)
       (fold (item_usage (cat s)) (orderItems_of s orderId) [])"

text \<open>
  The deduction loop (lines 507-545 and 990-1041): per entry of the map, in insertion
  order, read the ingredient row, fail when it is missing or short, else write the new
  quantity and a ledger row. The caller rolls the transaction back on \<open>Inl\<close>.
\<close>

definition set_stock :: "int \<Rightarrow> money \<Rightarrow> ingredient_row list \<Rightarrow> ingredient_row list" where
  "set_stock ingredientId newQuantity rows =
     map (\<lambda>r. if ing_id r = ingredientId then r\<lparr>ing_quantity_in_stock := newQuantity\<rparr> else r) rows"

fun deduct_stock :: "int \<Rightarrow> (int \<times> money) list \<Rightarrow> db \<Rightarrow> error + db" where
  "deduct_stock orderId [] s = Inr s"
| "deduct_stock orderId ((ingredientId, requiredQuantity) # rest) s =
     (case filter (\<lambda>r. ing_id r = ingredientId) (ingredients s) of
        [] \<Rightarrow> Inl (IngredientNotFound ingredientId)
      | stock # _ \<Rightarrow>
          (let availableStock = ing_quantity_in_stock stock in
           if availableStock < requiredQuantity
           then Inl (InsufficientStock (ing_name stock) requiredQuantity availableStock)
           else deduct_stock orderId rest
                  (s\<lparr>ingredients := set_stock ingredientId (availableStock - requiredQuantity) (ingredients s),
                     stock_transactions := stock_transactions s @
                       [\<lparr>st_ingredient_id = ingredientId, st_quantity = - requiredQuantity,
                         st_transaction_type = Deduction, st_order_id = Some orderId,
                         st_reason = ''Order approval''\<rparr>]\<rparr>)))"


section \<open>Approval and cancellation\<close>

definition set_order :: "int \<Rightarrow> bool \<Rightarrow> order_status \<Rightarrow> order_row list \<Rightarrow> order_row list" where
  "set_order orderId approved status rows =
     map (\<lambda>r. if ord_id r = orderId then r\<lparr>ord_approved := approved, ord_status := status\<rparr> else r) rows"

definition deduction_exists :: "db \<Rightarrow> int \<Rightarrow> bool" where
  "deduction_exists s orderId =
     (filter (\<lambda>t. st_order_id t = Some orderId \<and> st_transaction_type t = Deduction) (stock_transactions s) \<noteq> [])"

definition restoration_exists :: "db \<Rightarrow> int \<Rightarrow> bool" where
  "restoration_exists s orderId =
     (filter (\<lambda>t. st_order_id t = Some orderId \<and> st_reason t = ''Order cancellation stock restoration'')
        (stock_transactions s) \<noteq> [])"

text \<open>
  POST /orders/:id/approve (lines 860-1119). The handler works inside one transaction;
  every failing branch calls \<^verbatim>\<open>connection.rollback()\<close>, so it returns the state it
  was given, and the successful branch commits the state the writes produced. The
  realtime events are no part of the store and are left out.
\<close>

definition approve_order :: "req_user option \<Rightarrow> int \<Rightarrow> db \<Rightarrow> (error + reply) \<times> db" where
  "approve_order user orderId s =
     (if \<not> authorized s user then (Inl Forbidden, s)
      else if orderId \<le> 0 then (Inl InvalidOrderId, s)
      else case filter (\<lambda>r. ord_id r = orderId) (orders s) of
             [] \<Rightarrow> (Inl OrderNotFound, s)
           | order # _ \<Rightarrow>
               if ord_approved order \<and> ord_status order \<noteq> Cancelled then (Inl AlreadyApproved, s)
               else if deduction_exists s orderId then (Inl AlreadyDeducted, s)
               else (case deduct_stock orderId (ingredientUsage s orderId) s of
                       Inl e \<Rightarrow> (Inl e, s)
                     | Inr s' \<Rightarrow>
                         (Inr OrderApproved, s'\<lparr>orders := set_order orderId True Preparing (orders s')\<rparr>)))"


text \<open>
  PUT /orders/:id (lines 787-857). \<open>approved\<close> is the number of the request body; the
  route accepts \<^verbatim>\<open>1\<close> and \<^verbatim>\<open>0\<close> only and writes the order row directly, outside
  any transaction.
\<close>

definition put_order :: "req_user option \<Rightarrow> int \<Rightarrow> int \<Rightarrow> db \<Rightarrow> (error + reply) \<times> db" where
  "put_order user orderId approved s =
     (if \<not> authorized s user then (Inl Forbidden, s)
      else if orderId \<le> 0 then (Inl InvalidOrderId, s)
      else if approved \<noteq> 1 \<and> approved \<noteq> 0 then (Inl InvalidApprovedValue, s)
      else case filter (\<lambda>r. ord_id r = orderId) (orders s) of
             [] \<Rightarrow> (Inl OrderNotFound, s)
           | order # _ \<Rightarrow>
               (Inr OrderStatusUpdated,
                s\<lparr>orders := set_order orderId (approved \<noteq> 0)
                               (if approved \<noteq> 0 then Preparing else ord_status order) (orders s)\<rparr>))"

section \<open>Order admission: POST /orders\<close>

text \<open>
  The request as the handler reads it (lines 18-26). Cart lines carry numbers; a field
  that may be absent is an \<open>option\<close>. \<open>rq_now\<close> is the clock (seconds) that
  \<^verbatim>\<open>NOW()\<close> and \<^verbatim>\<open>new Date()\<close> read, and \<open>rq_fresh_session\<close> the string
  \<^verbatim>\<open>staff-<id>-<uuid>\<close> generated for a staff request without a session id.
\<close>

record cart_item =
  ci_item_id :: int
  ci_quantity :: int
  ci_unit_price :: money
  ci_supplement_ids :: "int list option"
  ci_supplement_id :: "int option"

record breakfast_item =
  bi_breakfast_id :: int
  bi_quantity :: int
  bi_unit_price :: money
  bi_option_ids :: "int list option"

record order_request =
  rq_user :: "req_user option"
  rq_source :: "string option"
  rq_items :: "cart_item list"
  rq_breakfastItems :: "breakfast_item list"
  rq_total_price :: "money option"
  rq_order_type :: string
  rq_delivery_address :: "string option"
  rq_promotion_id :: "int option"
  rq_table_id :: "int option"
  rq_session_id :: "string option"
  rq_notes :: "string option"
  rq_header_session_id :: "string option"
  rq_header_device_id :: "string option"
  rq_user_agent :: "string option"
  rq_ip :: "string option"
  rq_express_session :: "string option"
  rq_fresh_session :: string
  rq_now :: int

text \<open>
  The key of the duplicate-submission guard: the handler hashes the JSON text of these
  fields with SHA-256; the model keeps the fields themselves, that is, it takes the
  hash to be free of collisions. The same holds for the two fingerprints.
\<close>

type_synonym order_key =
  "cart_item list \<times> breakfast_item list \<times> int option \<times> string \<times> money option \<times> string \<times> string option"

record breakfast_entry =
  be_quantity :: int
  be_unit_price :: money
  be_option_ids :: "int list"

text \<open>JavaScript truthiness of an optional string, and \<^verbatim>\<open>a || b\<close> on such strings.\<close>

definition truthy_str :: "string option \<Rightarrow> bool" where
  "truthy_str x = (case x of None \<Rightarrow> False | Some v \<Rightarrow> v \<noteq> [])"

definition or_str :: "string option \<Rightarrow> string option \<Rightarrow> string option" where
  "or_str a b = (if truthy_str a then a else b)"

definition is_space :: "char \<Rightarrow> bool" where
  "is_space ch = (ch = CHR '' '' \<or> ch = CHR 0x09 \<or> ch = CHR 0x0A \<or> ch = CHR 0x0B \<or> ch = CHR 0x0C \<or> ch = CHR 0x0D)"

definition blank :: "string \<Rightarrow> bool" where
  "blank v = list_all is_space v"

definition hex_digit :: "char \<Rightarrow> bool" where
  "hex_digit ch = (ch \<in> set ''0123456789abcdefABCDEF'')"

text \<open>The regular expression of line 29.\<close>

definition uuidRegex :: "string \<Rightarrow> bool" where
  "uuidRegex d =
     (length d = 36 \<and> list_all hex_digit (take 8 d) \<and> d ! 8 = CHR ''-''
      \<and> list_all hex_digit (take 4 (drop 9 d)) \<and> d ! 13 = CHR ''-''
      \<and> list_all hex_digit (take 4 (drop 14 d)) \<and> d ! 18 = CHR ''-''
      \<and> list_all hex_digit (take 4 (drop 19 d)) \<and> d ! 23 = CHR ''-''
      \<and> list_all hex_digit (drop 24 d))"

definition isStaffRequest :: "order_request \<Rightarrow> bool" where
  "isStaffRequest req =
     (case rq_user req of
        None \<Rightarrow> False
      | Some u \<Rightarrow> (ru_role u = ''admin'' \<or> ru_role u = ''server'') \<and> rq_source req = Some ''staff-console'')"

definition sessionId_of :: "order_request \<Rightarrow> string option" where
  "sessionId_of req =
     or_str (rq_session_id req) (or_str (rq_header_session_id req) (or_str (rq_express_session req)
       (if isStaffRequest req then Some (rq_fresh_session req) else None)))"

text \<open>
  For a staff request without the header the source builds \<^verbatim>\<open>staff-device-<id>\<close>;
  the value is only logged on that path, so the model keeps the prefix.
\<close>

definition deviceId_of :: "order_request \<Rightarrow> string" where
  "deviceId_of req =
     (case or_str (rq_header_device_id req)
             (Some (if isStaffRequest req then ''staff-device-'' else ''unknown'')) of
        Some d \<Rightarrow> d | None \<Rightarrow> ''unknown'')"

definition fingerprints :: "order_request \<Rightarrow> string list" where
  "fingerprints req =
     remdups [deviceId_of req,
       (case or_str (rq_ip req) (Some ''unknown'') of Some a \<Rightarrow> a | None \<Rightarrow> ''unknown'') @ ''|'' @
       (case or_str (rq_user_agent req) (Some ''unknown'') of Some a \<Rightarrow> a | None \<Rightarrow> ''unknown'')]"

definition orderHash :: "order_request \<Rightarrow> string \<Rightarrow> order_key" where
  "orderHash req sessionId =
     (rq_items req, rq_breakfastItems req, rq_table_id req, rq_order_type req, rq_total_price req,
      sessionId, rq_notes req)"

subsection \<open>Admission checks (lines 28-124)\<close>

text \<open>
  The device id test, the rate limiter with its purge of expired rows, the session id
  test, the duplicate-submission guard and the tests of the cart's shape, in the
  source's order. The purge and the guard's entry are written before the later tests
  run, so they are part of the state returned with a later error.
\<close>

definition purge_limits :: "int \<Rightarrow> db \<Rightarrow> db" where
  "purge_limits now s =
     s\<lparr>device_order_limits := filter (\<lambda>r. \<not> dol_order_timestamp r < now - 3600) (device_order_limits s)\<rparr>"

definition orderCount :: "order_request \<Rightarrow> db \<Rightarrow> nat" where
  "orderCount req s =
     length (filter (\<lambda>r. dol_device_fingerprint r \<in> set (fingerprints req)
                         \<and> rq_now req - 3600 \<le> dol_order_timestamp r) (device_order_limits s))"

definition shape_check :: "order_request \<Rightarrow> error option" where
  "shape_check req =
     (if rq_items req = [] \<and> rq_breakfastItems req = [] then Some EmptyOrder
      else if rq_order_type req \<notin> set [''local'', ''delivery'', ''takeaway'', ''imported''] then Some InvalidOrderType
      else if rq_order_type req = ''local'' \<and> \<not> truthy (rq_table_id req) then Some TableIdRequired
      else if rq_order_type req = ''delivery''
              \<and> (case rq_delivery_address req of None \<Rightarrow> True | Some a \<Rightarrow> blank a)
           then Some DeliveryAddressRequired
      else None)"

definition admission_checks ::
  "order_request \<Rightarrow> order_key list \<Rightarrow> db \<Rightarrow> (error + string) \<times> order_key list \<times> db" where
  "admission_checks req recentRequests s =
     (if \<not> isStaffRequest req \<and> (deviceId_of req = ''unknown'' \<or> \<not> uuidRegex (deviceId_of req))
      then (Inl InvalidDeviceId, recentRequests, s)
      else
        let s1 = (if isStaffRequest req then s else purge_limits (rq_now req) s) in
        if \<not> isStaffRequest req \<and> 3 \<le> orderCount req s1 then (Inl RateLimitExceeded, recentRequests, s1)
        else case sessionId_of req of
          None \<Rightarrow> (Inl InvalidSessionId, recentRequests, s1)
        | Some sessionId \<Rightarrow>
            if blank sessionId then (Inl InvalidSessionId, recentRequests, s1)
            else if orderHash req sessionId \<in> set recentRequests then (Inl DuplicateOrder, recentRequests, s1)
            else (case shape_check req of
                    Some e \<Rightarrow> (Inl e, orderHash req sessionId # recentRequests, s1)
                  | None \<Rightarrow> (Inr sessionId, orderHash req sessionId # recentRequests, s1)))"

subsection \<open>Price verification of menu-item lines (lines 128-178)\<close>

definition supplementIds_of :: "cart_item \<Rightarrow> int list" where
  "supplementIds_of item =
     (let supplementIds = (case ci_supplement_ids item of None \<Rightarrow> [] | Some ids \<Rightarrow> ids) in
      if truthy (ci_supplement_id item) \<and> the (ci_supplement_id item) \<notin> set supplementIds
      then supplementIds @ [the (ci_supplement_id item)]
      else supplementIds)"

definition supplements_found :: "catalog \<Rightarrow> int \<Rightarrow> int list \<Rightarrow> menu_item_supplement_row list" where
  "supplements_found c item_id supplementIds =
     filter (\<lambda>r. mis_menu_item_id r = item_id \<and> mis_supplement_id r \<in> set supplementIds)
       (menu_item_supplements c)"

definition base_price :: "menu_item_row \<Rightarrow> money" where
  "base_price m = (case mi_sale_price m of Some p \<Rightarrow> p | None \<Rightarrow> mi_regular_price m)"

definition verify_item :: "catalog \<Rightarrow> cart_item \<Rightarrow> money \<Rightarrow> error + money" where
  "verify_item c item calculatedTotal =
     (if ci_item_id item \<le> 0 then Inl (InvalidItemId (ci_item_id item))
      else if ci_quantity item \<le> 0 then Inl (InvalidQuantity (ci_item_id item))
      else if ci_unit_price item \<le> 0 then Inl (InvalidUnitPrice (ci_item_id item))
      else case filter (\<lambda>m. mi_id m = ci_item_id item) (menu_items c) of
             [] \<Rightarrow> Inl (ItemUnavailable (ci_item_id item))
           | menuItem # _ \<Rightarrow>
               if \<not> mi_availability menuItem then Inl (ItemUnavailable (ci_item_id item))
               else
                 let supplementIds = supplementIds_of item;
                     supplements = supplements_found c (ci_item_id item) supplementIds
                 in if supplementIds \<noteq> [] \<and> length supplements \<noteq> length supplementIds
                    then Inl (InvalidSupplement (ci_item_id item) supplementIds (map mis_supplement_id supplements))
                    else
                      let itemTotal = base_price menuItem +
                            (if supplementIds \<noteq> []
                             then sum_list (map (\<lambda>supp. or0 (mis_additional_price supp)) supplements)
                             else 0)
                      in if \<bar>ci_unit_price item - itemTotal\<bar> > 1 / 100
                         then Inl (PriceMismatch (ci_item_id item) itemTotal (ci_unit_price item))
                         else Inr (calculatedTotal + itemTotal * of_int (ci_quantity item)))"

fun verify_items :: "catalog \<Rightarrow> cart_item list \<Rightarrow> money \<Rightarrow> error + money" where
  "verify_items c [] calculatedTotal = Inr calculatedTotal"
| "verify_items c (item # rest) calculatedTotal =
     (case verify_item c item calculatedTotal of
        Inl e \<Rightarrow> Inl e
      | Inr t \<Rightarrow> verify_items c rest t)"

subsection \<open>Price verification of breakfast lines (lines 180-309)\<close>

text \<open>
  The option groups of a breakfast: the groups it owns and the reusable groups mapped
  to it, each with at least one option; the columns selected are id, is_required and
  title, and \<^verbatim>\<open>DISTINCT\<close> with \<^verbatim>\<open>UNION\<close> removes repeated rows.
\<close>

definition has_option :: "catalog \<Rightarrow> option_group_row \<Rightarrow> bool" where
  "has_option c g = (filter (\<lambda>bo. bo_group_id bo = bog_id g) (breakfast_options c) \<noteq> [])"

definition groups_of :: "catalog \<Rightarrow> int \<Rightarrow> (int \<times> bool \<times> string option) list" where
  "groups_of c breakfast_id =
     remdups (map (\<lambda>g. (bog_id g, bog_is_required g, bog_title g))
       (filter (\<lambda>g. bog_breakfast_id g = Some breakfast_id \<and> has_option c g) (breakfast_option_groups c)
        @ filter (\<lambda>g. bog_breakfast_id g = None \<and> has_option c g
                     \<and> filter (\<lambda>m. bogm_option_group_id m = bog_id g \<and> bogm_breakfast_id m = breakfast_id)
                          (breakfast_option_group_mappings c) \<noteq> [])
            (breakfast_option_groups c)))"

text \<open>The selected options: the option rows of this breakfast or of no breakfast, joined with their group.\<close>

definition options_found :: "catalog \<Rightarrow> int \<Rightarrow> int list \<Rightarrow> breakfast_option_row list" where
  "options_found c breakfast_id option_ids =
     concat (map (\<lambda>bo. map (\<lambda>g. bo) (filter (\<lambda>g. bo_group_id bo = bog_id g) (breakfast_option_groups c)))
       (filter (\<lambda>bo. (bo_breakfast_id bo = Some breakfast_id \<or> bo_breakfast_id bo = None)
                      \<and> bo_id bo \<in> set option_ids) (breakfast_options c)))"

definition group_label :: "int \<times> bool \<times> string option \<Rightarrow> group_label" where
  "group_label g = (if truthy_str (snd (snd g)) then Title (the (snd (snd g))) else GroupNo (fst g))"

text \<open>
  The option-group obligation (lines 226-283): \<open>Inr\<close> carries the price of the
  selected options.
\<close>

definition check_options :: "catalog \<Rightarrow> int \<Rightarrow> int list option \<Rightarrow> error + money" where
  "check_options c breakfast_id option_ids =
     (let groups = groups_of c breakfast_id in
      case option_ids of
        Some ids \<Rightarrow>
          if ids \<noteq> [] then
            (let options = options_found c breakfast_id ids in
             if length options \<noteq> length ids
             then Inl (InvalidOption breakfast_id ids (map bo_id options))
             else
               let selectedGroups = set (map bo_group_id options);
                   requiredGroups = map fst (filter (\<lambda>g. fst (snd g)) groups);
                   missingRequiredGroups = filter (\<lambda>g. g \<notin> selectedGroups) requiredGroups
               in if missingRequiredGroups \<noteq> []
                  then Inl (MissingRequiredGroup breakfast_id
                         (map group_label (filter (\<lambda>g. fst g \<in> set missingRequiredGroups) groups)))
                  else Inr (sum_list (map (\<lambda>opt. or0 (bo_additional_price opt)) options)))
          else if groups \<noteq> [] \<and> filter (\<lambda>g. fst (snd g)) groups \<noteq> []
               then Inl (MissingRequiredGroup breakfast_id (map group_label (filter (\<lambda>g. fst (snd g)) groups)))
               else Inr 0
      | None \<Rightarrow>
          if groups \<noteq> [] \<and> filter (\<lambda>g. fst (snd g)) groups \<noteq> []
          then Inl (MissingRequiredGroup breakfast_id (map group_label (filter (\<lambda>g. fst (snd g)) groups)))
          else Inr 0)"

text \<open>The update of \<^verbatim>\<open>breakfastMap\<close> for one accepted line (lines 299-306).\<close>

definition coalesce :: "breakfast_item \<Rightarrow> money \<Rightarrow> (int \<times> breakfast_entry) list \<Rightarrow> (int \<times> breakfast_entry) list" where
  "coalesce item expectedPrice breakfastMap =
     (let m1 = (if map_of breakfastMap (bi_breakfast_id item) = None
                then map_set (bi_breakfast_id item)
                       \<lparr>be_quantity = 0, be_unit_price = expectedPrice, be_option_ids = []\<rparr> breakfastMap
                else breakfastMap);
          breakfastEntry = the (map_of m1 (bi_breakfast_id item));
          e1 = breakfastEntry\<lparr>be_quantity := be_quantity breakfastEntry + bi_quantity item\<rparr>;
          e2 = (case bi_option_ids item of
                  None \<Rightarrow> e1
                | Some ids \<Rightarrow>
                    e1\<lparr>be_option_ids := be_option_ids e1 @ filter (\<lambda>i. i \<notin> set (be_option_ids e1)) ids\<rparr>)
      in map_set (bi_breakfast_id item) e2 m1)"

definition verify_breakfast ::
  "catalog \<Rightarrow> breakfast_item \<Rightarrow> money \<times> (int \<times> breakfast_entry) list \<Rightarrow>
   error + money \<times> (int \<times> breakfast_entry) list" where
  "verify_breakfast c item acc =
     (if bi_breakfast_id item \<le> 0 then Inl (InvalidBreakfastId (bi_breakfast_id item))
      else if bi_quantity item \<le> 0 then Inl (InvalidBreakfastQuantity (bi_breakfast_id item))
      else if bi_unit_price item \<le> 0 then Inl (InvalidBreakfastUnitPrice (bi_breakfast_id item))
      else case filter (\<lambda>b. bf_id b = bi_breakfast_id item) (breakfasts c) of
             [] \<Rightarrow> Inl (BreakfastUnavailable (bi_breakfast_id item))
           | breakfast # _ \<Rightarrow>
               if \<not> bf_availability breakfast then Inl (BreakfastUnavailable (bi_breakfast_id item))
               else case check_options c (bi_breakfast_id item) (bi_option_ids item) of
                      Inl e \<Rightarrow> Inl e
                    | Inr optionPrice \<Rightarrow>
                        let expectedPrice = bf_price breakfast + optionPrice;
                            providedPrice = bi_unit_price item
                        in if providedPrice \<le> 0 then Inl (InvalidBreakfastUnitPrice (bi_breakfast_id item))
                           else if providedPrice + 1 / 100 < expectedPrice
                           then Inl (BreakfastPriceBelowExpected (bi_breakfast_id item) expectedPrice providedPrice)
                           else
                             let expectedPrice' = (if providedPrice > expectedPrice then providedPrice else expectedPrice)
                             in Inr (fst acc + expectedPrice' * of_int (bi_quantity item),
                                     coalesce item expectedPrice' (snd acc)))"

fun verify_breakfasts ::
  "catalog \<Rightarrow> breakfast_item list \<Rightarrow> money \<times> (int \<times> breakfast_entry) list \<Rightarrow>
   error + money \<times> (int \<times> breakfast_entry) list" where
  "verify_breakfasts c [] acc = Inr acc"
| "verify_breakfasts c (item # rest) acc =
     (case verify_breakfast c item acc of
        Inl e \<Rightarrow> Inl e
      | Inr acc' \<Rightarrow> verify_breakfasts c rest acc')"

definition verify_cart :: "catalog \<Rightarrow> order_request \<Rightarrow> error + money \<times> (int \<times> breakfast_entry) list" where
  "verify_cart c req =
     (case verify_items c (rq_items req) 0 of
        Inl e \<Rightarrow> Inl e
      | Inr t \<Rightarrow> verify_breakfasts c (rq_breakfastItems req) (t, []))"

subsection \<open>The table (lines 311-328)\<close>

text \<open>
  The table is looked up and marked occupied with \<^verbatim>\<open>db.query\<close>, outside the
  transaction that is opened at line 391: the new state is returned to the caller
  whatever happens afterwards.
\<close>

definition table_step :: "order_request \<Rightarrow> db \<Rightarrow> error + int option \<times> db" where
  "table_step req s =
     (if rq_order_type req = ''local'' \<and> truthy (rq_table_id req) then
        (case filter (\<lambda>t. tbl_id t = the (rq_table_id req) \<or> tbl_number t = the (rq_table_id req)) (tables s) of
           [] \<Rightarrow> Inl TableDoesNotExist
         | tableRecord # _ \<Rightarrow>
             if tbl_status tableRecord = ''reserved'' then Inl TableReserved
             else if tbl_status tableRecord \<noteq> ''occupied''
             then Inr (Some (tbl_id tableRecord),
                       s\<lparr>tables := map (\<lambda>t. if tbl_id t = tbl_id tableRecord
                                            then t\<lparr>tbl_status := ''occupied''\<rparr> else t) (tables s)\<rparr>)
             else Inr (Some (tbl_id tableRecord), s))
      else Inr (rq_table_id req, s))"

subsection \<open>The promotion overlay (lines 330-383)\<close>

text \<open>
  The overlay recomputes the total from the catalogue. Reading \<^verbatim>\<open>menuItem[0]\<close> or
  \<^verbatim>\<open>breakfast[0]\<close> of an empty result throws, and so does the options query for
  an option array that is present and empty (the driver renders it as \<^verbatim>\<open>IN ()\<close>);
  the outer handler turns both into the reply 500.
\<close>

definition promo_found :: "catalog \<Rightarrow> int option \<Rightarrow> int \<Rightarrow> promotion_row list" where
  "promo_found c promotion_id now =
     (if truthy promotion_id
      then filter (\<lambda>p. promo_id p = the promotion_id \<and> promo_active p
                       \<and> promo_start_date p \<le> now \<and> now \<le> promo_end_date p) (promotions c)
      else [])"

definition promo_item :: "catalog \<Rightarrow> promotion_row \<Rightarrow> cart_item \<Rightarrow> money \<Rightarrow> error + money" where
  "promo_item c promo item promoCalculatedPrice =
     (case filter (\<lambda>m. mi_id m = ci_item_id item) (menu_items c) of
        [] \<Rightarrow> Inl InternalError
      | menuItem # _ \<Rightarrow>
          let discount = promo_discount_percentage promo / 100;
              promoSupplementIds = supplementIds_of item;
              itemPrice = base_price menuItem * of_int (ci_quantity item) +
                (if promoSupplementIds \<noteq> []
                 then sum_list (map (\<lambda>supp. or0 (mis_additional_price supp))
                        (supplements_found c (ci_item_id item) promoSupplementIds)) * of_int (ci_quantity item)
                 else 0)
          in Inr (promoCalculatedPrice +
                  (if \<not> truthy (promo_item_id promo) \<or> Some (ci_item_id item) = promo_item_id promo
                   then itemPrice * (1 - discount) else itemPrice)))"

definition promo_breakfast :: "catalog \<Rightarrow> breakfast_item \<Rightarrow> money \<Rightarrow> error + money" where
  "promo_breakfast c item promoCalculatedPrice =
     (case filter (\<lambda>b. bf_id b = bi_breakfast_id item) (breakfasts c) of
        [] \<Rightarrow> Inl InternalError
      | breakfast # _ \<Rightarrow>
          (case bi_option_ids item of
             None \<Rightarrow> Inr (promoCalculatedPrice + bf_price breakfast * of_int (bi_quantity item))
           | Some ids \<Rightarrow>
               if ids = [] then Inl InternalError
               else Inr (promoCalculatedPrice + (bf_price breakfast * of_int (bi_quantity item) +
                      sum_list (map (\<lambda>opt. or0 (bo_additional_price opt))
                        (filter (\<lambda>bo. bo_breakfast_id bo = Some (bi_breakfast_id item) \<and> bo_id bo \<in> set ids)
                           (breakfast_options c))) * of_int (bi_quantity item)))))"

fun promo_items :: "catalog \<Rightarrow> promotion_row \<Rightarrow> cart_item list \<Rightarrow> money \<Rightarrow> error + money" where
  "promo_items c promo [] p = Inr p"
| "promo_items c promo (item # rest) p =
     (case promo_item c promo item p of Inl e \<Rightarrow> Inl e | Inr p' \<Rightarrow> promo_items c promo rest p')"

fun promo_breakfasts :: "catalog \<Rightarrow> breakfast_item list \<Rightarrow> money \<Rightarrow> error + money" where
  "promo_breakfasts c [] p = Inr p"
| "promo_breakfasts c (item # rest) p =
     (case promo_breakfast c item p of Inl e \<Rightarrow> Inl e | Inr p' \<Rightarrow> promo_breakfasts c rest p')"

definition promo_total :: "catalog \<Rightarrow> order_request \<Rightarrow> money \<Rightarrow> error + money" where
  "promo_total c req calculatedTotal =
     (case promo_found c (rq_promotion_id req) (rq_now req) of
        [] \<Rightarrow> Inr calculatedTotal
      | promo # _ \<Rightarrow>
          (case promo_items c promo (rq_items req) 0 of
             Inl e \<Rightarrow> Inl e
           | Inr p \<Rightarrow> promo_breakfasts c (rq_breakfastItems req) p))"

subsection \<open>The transaction (lines 391-602)\<close>

text \<open>An AUTO_INCREMENT key: one more than the largest key of the table.\<close>

definition fresh_id :: "int list \<Rightarrow> int" where
  "fresh_id ids = fold max ids 0 + 1"

definition insert_items :: "int \<Rightarrow> cart_item list \<Rightarrow> db \<Rightarrow> db" where
  "insert_items orderId items s =
     fold (\<lambda>item t.
         t\<lparr>order_items := order_items t @
             [\<lparr>oi_id = fresh_id (map oi_id (order_items t)), oi_order_id = orderId,
               oi_item_id = Some (ci_item_id item), oi_breakfast_id = None,
               oi_quantity = ci_quantity item, oi_unit_price = ci_unit_price item,
               oi_supplement_id = (case supplementIds_of item of [] \<Rightarrow> None | p # _ \<Rightarrow> Some p)\<rparr>]\<rparr>)
       items s"

definition insert_breakfast :: "int \<Rightarrow> int \<times> breakfast_entry \<Rightarrow> db \<Rightarrow> db" where
  "insert_breakfast orderId e t =
     (let orderItemId = fresh_id (map oi_id (order_items t)) in
      t\<lparr>order_items := order_items t @
           [\<lparr>oi_id = orderItemId, oi_order_id = orderId, oi_item_id = None,
             oi_breakfast_id = Some (fst e), oi_quantity = be_quantity (snd e),
             oi_unit_price = be_unit_price (snd e), oi_supplement_id = None\<rparr>],
         breakfast_order_options := breakfast_order_options t @
           map (\<lambda>optionId. \<lparr>boo_order_item_id = orderItemId, boo_breakfast_option_id = optionId\<rparr>)
             (be_option_ids (snd e))\<rparr>)"

definition insert_breakfasts :: "int \<Rightarrow> (int \<times> breakfast_entry) list \<Rightarrow> db \<Rightarrow> db" where
  "insert_breakfasts orderId breakfastMap s = fold (insert_breakfast orderId) breakfastMap s"

definition null_if_empty :: "string option \<Rightarrow> string option" where
  "null_if_empty x = (if truthy_str x then x else None)"

definition insert_order ::
  "order_request \<Rightarrow> string \<Rightarrow> int option \<Rightarrow> money \<Rightarrow> int \<Rightarrow> db \<Rightarrow> db" where
  "insert_order req sessionId effectiveTableId calculatedTotal orderId s =
     s\<lparr>orders := orders s @
         [\<lparr>ord_id = orderId, ord_total_price = calculatedTotal, ord_type = rq_order_type req,
           ord_delivery_address = null_if_empty (rq_delivery_address req),
           ord_promotion_id = (if truthy (rq_promotion_id req) then rq_promotion_id req else None),
           ord_table_id = (if rq_order_type req = ''local'' then effectiveTableId else None),
           ord_session_id = sessionId, ord_notes = null_if_empty (rq_notes req),
           ord_status = (if isStaffRequest req then Preparing else Pending),
           ord_approved = False\<rparr>]\<rparr>"

definition insert_limits :: "order_request \<Rightarrow> db \<Rightarrow> db" where
  "insert_limits req s =
     (if isStaffRequest req then s
      else s\<lparr>device_order_limits := device_order_limits s @
               map (\<lambda>fp. \<lparr>dol_device_fingerprint = fp, dol_order_timestamp = rq_now req,
                           dol_device_id = deviceId_of req\<rparr>) (fingerprints req)\<rparr>)"

definition insert_notification :: "order_request \<Rightarrow> int \<Rightarrow> db \<Rightarrow> db" where
  "insert_notification req orderId s =
     (if isStaffRequest req then s
      else s\<lparr>notifications := notifications s @
               [\<lparr>ntf_id = fresh_id (map ntf_id (notifications s)), ntf_type = ''order'',
                 ntf_reference_id = orderId\<rparr>]\<rparr>)"

text \<open>
  The transaction: \<open>Inl\<close> stands for \<^verbatim>\<open>connection.rollback()\<close> followed by the
  error reply, and the caller then keeps the state from before the transaction.
  A staff request is approved at once and its stock deducted with the same loop as
  in the approval route.
\<close>

definition persist_order ::
  "order_request \<Rightarrow> string \<Rightarrow> int option \<Rightarrow> money \<Rightarrow> (int \<times> breakfast_entry) list \<Rightarrow> db \<Rightarrow>
   error + int \<times> db" where
  "persist_order req sessionId effectiveTableId calculatedTotal breakfastMap s =
     (let orderId = fresh_id (map ord_id (orders s));
          s1 = insert_order req sessionId effectiveTableId calculatedTotal orderId s;
          s2 = insert_limits req s1;
          s3 = insert_items orderId (rq_items req) s2;
          s4 = insert_breakfasts orderId breakfastMap s3
      in if isStaffRequest req then
           (case deduct_stock orderId (ingredientUsage s4 orderId) s4 of
              Inl e \<Rightarrow> Inl e
            | Inr s5 \<Rightarrow>
                Inr (orderId,
                     insert_notification req orderId
                       (s5\<lparr>orders := set_order orderId True Preparing (orders s5)\<rparr>)))
         else Inr (orderId, insert_notification req orderId s4))"

subsection \<open>The handler\<close>

definition create_order ::
  "order_request \<Rightarrow> order_key list \<Rightarrow> db \<Rightarrow> (error + reply) \<times> order_key list \<times> db" where
  "create_order req recentRequests s =
     (case admission_checks req recentRequests s of
        (Inl e, recent1, s1) \<Rightarrow> (Inl e, recent1, s1)
      | (Inr sessionId, recent1, s1) \<Rightarrow>
          (case verify_cart (cat s1) req of
             Inl e \<Rightarrow> (Inl e, recent1, s1)
           | Inr (calculatedTotal, breakfastMap) \<Rightarrow>
               (case table_step req s1 of
                  Inl e \<Rightarrow> (Inl e, recent1, s1)
                | Inr (effectiveTableId, s2) \<Rightarrow>
                    (case promo_total (cat s2) req calculatedTotal of
                       Inl e \<Rightarrow> (Inl e, recent1, s2)
                     | Inr finalTotal \<Rightarrow>
                         if \<bar>or0 (rq_total_price req) - finalTotal\<bar> > 1 / 100
                         then (Inl (TotalPriceMismatch finalTotal (or0 (rq_total_price req))), recent1, s2)
                         else (case persist_order req sessionId effectiveTableId finalTotal breakfastMap s2 of
                                 Inl e \<Rightarrow> (Inl e, recent1, s2)
                               | Inr (orderId, s3) \<Rightarrow> (Inr (OrderCreated orderId), recent1, s3))))))"

section \<open>Observations on the store\<close>

text \<open>What a reader of the store sees of one order and of one ingredient (the first row with that id).\<close>

definition order_of :: "db \<Rightarrow> int \<Rightarrow> order_row option" where
  "order_of s orderId = (case filter (\<lambda>r. ord_id r = orderId) (orders s) of [] \<Rightarrow> None | r # _ \<Rightarrow> Some r)"

definition stock_of :: "db \<Rightarrow> int \<Rightarrow> money option" where
  "stock_of s i = (case filter (\<lambda>r. ing_id r = i) (ingredients s) of [] \<Rightarrow> None | r # _ \<Rightarrow> Some (ing_quantity_in_stock r))"

definition name_of :: "db \<Rightarrow> int \<Rightarrow> string option" where
  "name_of s i = (case filter (\<lambda>r. ing_id r = i) (ingredients s) of [] \<Rightarrow> None | r # _ \<Rightarrow> Some (ing_name r))"

definition stock_nonneg :: "db \<Rightarrow> bool" where
  "stock_nonneg s = list_all (\<lambda>r. 0 \<le> ing_quantity_in_stock r) (ingredients s)"

text \<open>The ledger rows the deduction and the restoration loop write for one entry of the map.\<close>

definition deduction_row :: "int \<Rightarrow> int \<times> money \<Rightarrow> stock_transaction_row" where
  "deduction_row orderId e = \<lparr>st_ingredient_id = fst e, st_quantity = - snd e,
       st_transaction_type = Deduction, st_order_id = Some orderId, st_reason = ''Order approval''\<rparr>"

definition restoration_row :: "int \<Rightarrow> int \<times> money \<Rightarrow> stock_transaction_row" where
  "restoration_row orderId e = \<lparr>st_ingredient_id = fst e, st_quantity = snd e,
       st_transaction_type = Addition, st_order_id = Some orderId,
       st_reason = ''Order cancellation stock restoration''\<rparr>"





subsection \<open>The requirement map as the specification words it\<close>

text \<open>
  The specification's reading of the map, written independently of the loops: per
  ingredient, the per-unit quantities of the line's menu item, primary supplement and
  breakfast times the line's quantity, summed over the order's lines, plus the
  quantities of every selected option, each taken once.
\<close>

definition rows_requirement :: "recipe_row list \<Rightarrow> int \<Rightarrow> money" where
  "rows_requirement rows i = sum_list (map rc_quantity (filter (\<lambda>r. rc_ingredient_id r = i) rows))"

definition line_requirement :: "catalog \<Rightarrow> order_item_row \<Rightarrow> int \<Rightarrow> money" where
  "line_requirement c item i =
     (if truthy (oi_item_id item)
      then rows_requirement (recipe_of (menu_item_ingredients c) (the (oi_item_id item))) i * of_int (oi_quantity item)
      else 0)
   + (if truthy (oi_supplement_id item)
      then rows_requirement (recipe_of (supplement_ingredients c) (the (oi_supplement_id item))) i * of_int (oi_quantity item)
      else 0)
   + (if truthy (oi_breakfast_id item)
      then rows_requirement (recipe_of (breakfast_ingredients c) (the (oi_breakfast_id item))) i * of_int (oi_quantity item)
      else 0)"

definition total_required :: "db \<Rightarrow> int \<Rightarrow> int \<Rightarrow> money" where
  "total_required s orderId i =
     sum_list (map (\<lambda>item. line_requirement (cat s) item i) (orderItems_of s orderId))
   + sum_list (map (\<lambda>opt. rows_requirement (recipe_of (breakfast_option_ingredients (cat s)) opt) i)
        (breakfastOptions_of s orderId))"



subsection \<open>Menu-item prices as the specification words them\<close>




subsection \<open>Option groups\<close>




definition group_key_unique :: "catalog \<Rightarrow> bool" where
  "group_key_unique c = distinct (map bog_id (breakfast_option_groups c))"

subsection \<open>Coalesced breakfast lines\<close>

text \<open>
  For the cart lines of one breakfast: their summed quantity and the union of their
  option ids. \<open>coalesced\<close> says that a map has one entry per distinct breakfast of
  the lines, carrying that sum and that union without repetition. The rows a
  submission appends to \<^verbatim>\<open>order_items\<close> and \<^verbatim>\<open>breakfast_order_options\<close> are
  read off the two stores.
\<close>

definition lines_of :: "breakfast_item list \<Rightarrow> int \<Rightarrow> breakfast_item list" where
  "lines_of ls b = filter (\<lambda>l. bi_breakfast_id l = b) ls"

definition summed_quantity :: "breakfast_item list \<Rightarrow> int \<Rightarrow> int" where
  "summed_quantity ls b = sum_list (map bi_quantity (lines_of ls b))"

definition option_union :: "breakfast_item list \<Rightarrow> int \<Rightarrow> int set" where
  "option_union ls b =
     set (concat (map (\<lambda>l. case bi_option_ids l of None \<Rightarrow> [] | Some ids \<Rightarrow> ids) (lines_of ls b)))"

definition option_key_unique :: "catalog \<Rightarrow> bool" where
  "option_key_unique c = distinct (map bo_id (breakfast_options c))"

definition coalesced :: "(int \<times> breakfast_entry) list \<Rightarrow> breakfast_item list \<Rightarrow> bool" where
  "coalesced m ls =
     (distinct (map fst m) \<and> set (map fst m) = set (map bi_breakfast_id ls)
      \<and> list_all (\<lambda>e. be_quantity (snd e) = summed_quantity ls (fst e)
                       \<and> distinct (be_option_ids (snd e))
                       \<and> set (be_option_ids (snd e)) = option_union ls (fst e)) m)"

definition added_items :: "db \<Rightarrow> db \<Rightarrow> order_item_row list" where
  "added_items s s' = drop (length (order_items s)) (order_items s')"

definition added_options :: "db \<Rightarrow> db \<Rightarrow> breakfast_order_option_row list" where
  "added_options s s' = drop (length (breakfast_order_options s)) (breakfast_order_options s')"

definition breakfast_rows :: "db \<Rightarrow> db \<Rightarrow> order_item_row list" where
  "breakfast_rows s s' = filter (\<lambda>r. oi_breakfast_id r \<noteq> None) (added_items s s')"

definition options_of_row :: "db \<Rightarrow> db \<Rightarrow> order_item_row \<Rightarrow> int list" where
  "options_of_row s s' r =
     map boo_breakfast_option_id (filter (\<lambda>x. boo_order_item_id x = oi_id r) (added_options s s'))"

text \<open>
  Referential integrity of the order lines and of the breakfast option rows, as the
  foreign keys of the two tables state it: every order line belongs to a stored order,
  every option row to a stored order line.
\<close>

definition items_reference_orders :: "db \<Rightarrow> bool" where
  "items_reference_orders s =
     list_all (\<lambda>r. oi_order_id r \<in> set (map ord_id (orders s))) (order_items s)"

definition options_reference_items :: "db \<Rightarrow> bool" where
  "options_reference_items s =
     list_all (\<lambda>x. boo_order_item_id x \<in> set (map oi_id (order_items s))) (breakfast_order_options s)"

definition same_but_items :: "db \<Rightarrow> db \<Rightarrow> bool" where
  "same_but_items s s' = (cat s' = cat s \<and> tables s' = tables s \<and> orders s' = orders s
     \<and> ingredients s' = ingredients s \<and> stock_transactions s' = stock_transactions s
     \<and> device_order_limits s' = device_order_limits s \<and> notifications s' = notifications s)"

subsection \<open>The promotion overlay as the code computes it\<close>






section \<open>A worked store\<close>

text \<open>
  A small catalogue and one order: two coffees (menu item 5) with supplement 7 and one
  breakfast 3 with option 11. The order needs 3 units of beans, 1 of milk and 3 of eggs.
\<close>

definition ex_catalog :: catalog where
  "ex_catalog = \<lparr>
     users = [\<lparr>user_id = 1, user_role = ''admin''\<rparr>, \<lparr>user_id = 2, user_role = ''server''\<rparr>],
     menu_items = [\<lparr>mi_id = 5, mi_availability = True, mi_regular_price = 9, mi_sale_price = None\<rparr>,
                   \<lparr>mi_id = 6, mi_availability = True, mi_regular_price = 4, mi_sale_price = Some 3\<rparr>],
     menu_item_supplements = [\<lparr>mis_menu_item_id = 5, mis_supplement_id = 7, mis_additional_price = Some (1/2)\<rparr>],
     breakfasts = [\<lparr>bf_id = 3, bf_availability = True, bf_price = 12\<rparr>],
     breakfast_option_groups =
       [\<lparr>bog_id = 20, bog_breakfast_id = Some 3, bog_is_required = True, bog_title = Some ''Drink''\<rparr>,
        \<lparr>bog_id = 21, bog_breakfast_id = None, bog_is_required = False, bog_title = Some ''Extras''\<rparr>],
     breakfast_option_group_mappings = [\<lparr>bogm_breakfast_id = 3, bogm_option_group_id = 21\<rparr>],
     breakfast_options =
       [\<lparr>bo_id = 11, bo_breakfast_id = Some 3, bo_group_id = 20, bo_additional_price = Some 1\<rparr>,
        \<lparr>bo_id = 12, bo_breakfast_id = Some 3, bo_group_id = 20, bo_additional_price = None\<rparr>,
        \<lparr>bo_id = 13, bo_breakfast_id = None, bo_group_id = 21, bo_additional_price = Some 2\<rparr>],
     promotions =
       [\<lparr>promo_id = 1, promo_discount_percentage = 10, promo_item_id = None,
          promo_start_date = 0, promo_end_date = 1000, promo_active = True\<rparr>,
        \<lparr>promo_id = 2, promo_discount_percentage = 50, promo_item_id = Some 6,
          promo_start_date = 0, promo_end_date = 1000, promo_active = True\<rparr>],
     menu_item_ingredients = [\<lparr>rc_owner_id = 5, rc_ingredient_id = 1, rc_quantity = 1\<rparr>],
     supplement_ingredients = [\<lparr>rc_owner_id = 7, rc_ingredient_id = 2, rc_quantity = 1/2\<rparr>],
     breakfast_ingredients = [\<lparr>rc_owner_id = 3, rc_ingredient_id = 1, rc_quantity = 1\<rparr>,
                              \<lparr>rc_owner_id = 3, rc_ingredient_id = 3, rc_quantity = 2\<rparr>],
     breakfast_option_ingredients = [\<lparr>rc_owner_id = 11, rc_ingredient_id = 3, rc_quantity = 1\<rparr>]\<rparr>"

definition ex_state :: "money \<Rightarrow> money \<Rightarrow> money \<Rightarrow> stock_transaction_row list \<Rightarrow> bool \<Rightarrow> order_status \<Rightarrow> db" where
  "ex_state beans milk eggs ledger approved status = \<lparr>
     cat = ex_catalog,
     tables = [\<lparr>tbl_id = 1, tbl_number = 10, tbl_status = ''available''\<rparr>],
     orders = [\<lparr>ord_id = 1, ord_total_price = 32, ord_type = ''takeaway'', ord_delivery_address = None,
                 ord_promotion_id = None, ord_table_id = None, ord_session_id = ''guest-a'',
                 ord_notes = None, ord_status = status, ord_approved = approved\<rparr>],
     order_items =
       [\<lparr>oi_id = 1, oi_order_id = 1, oi_item_id = Some 5, oi_breakfast_id = None, oi_quantity = 2,
          oi_unit_price = 19/2, oi_supplement_id = Some 7\<rparr>,
        \<lparr>oi_id = 2, oi_order_id = 1, oi_item_id = None, oi_breakfast_id = Some 3, oi_quantity = 1,
          oi_unit_price = 13, oi_supplement_id = None\<rparr>],
     breakfast_order_options = [\<lparr>boo_order_item_id = 2, boo_breakfast_option_id = 11\<rparr>],
     ingredients =
       [\<lparr>ing_id = 1, ing_name = ''beans'', ing_quantity_in_stock = beans\<rparr>,
        \<lparr>ing_id = 2, ing_name = ''milk'', ing_quantity_in_stock = milk\<rparr>,
        \<lparr>ing_id = 3, ing_name = ''eggs'', ing_quantity_in_stock = eggs\<rparr>],
     stock_transactions = ledger,
     device_order_limits = [],
     notifications = []\<rparr>"

definition ex_deductions :: "stock_transaction_row list" where
  "ex_deductions = map (deduction_row 1) [(1, 3), (2, 1), (3, 3)]"

definition ex_restorations :: "stock_transaction_row list" where
  "ex_restorations = map (restoration_row 1) [(1, 3), (2, 1), (3, 3)]"

definition admin :: "req_user option" where
  "admin = Some \<lparr>ru_id = 1, ru_role = ''admin''\<rparr>"

definition ex_pending :: db where
  "ex_pending = ex_state 5 4 3 [] False Pending"

definition ex_approved :: db where
  "ex_approved = ex_state 2 3 0 ex_deductions True Preparing"

definition ex_flag_reset :: db where
  "ex_flag_reset = ex_state 2 3 0 ex_deductions False Preparing"

definition ex_cancelled :: db where
  "ex_cancelled = ex_state 5 4 3 (ex_deductions @ ex_restorations) False Cancelled"

definition ex_reapproved :: db where
  "ex_reapproved = ex_state 5 4 3 (ex_deductions @ ex_restorations) True Preparing"

definition ex_short :: db where
  "ex_short = ex_state 5 4 2 [] False Pending"

text \<open>
  A guest submission for the same catalogue: two coffees with supplement 7 and two cart
  lines for breakfast 3; the same submission for table 10 with a wrong total; and a
  single breakfast line under the store-wide promotion 1, priced as if discounted.
\<close>

definition ex_request :: order_request where
  "ex_request = \<lparr>
     rq_user = None, rq_source = None,
     rq_items = [\<lparr>ci_item_id = 5, ci_quantity = 2, ci_unit_price = 19/2,
                   ci_supplement_ids = Some [7], ci_supplement_id = None\<rparr>],
     rq_breakfastItems =
       [\<lparr>bi_breakfast_id = 3, bi_quantity = 1, bi_unit_price = 13, bi_option_ids = Some [11]\<rparr>,
        \<lparr>bi_breakfast_id = 3, bi_quantity = 2, bi_unit_price = 15, bi_option_ids = Some [11, 13]\<rparr>],
     rq_total_price = Some 62, rq_order_type = ''takeaway'', rq_delivery_address = None,
     rq_promotion_id = None, rq_table_id = None, rq_session_id = Some ''guest-b'', rq_notes = None,
     rq_header_session_id = None,
     rq_header_device_id = Some ''123e4567-e89b-12d3-a456-426614174000'',
     rq_user_agent = Some ''ua'', rq_ip = Some ''10.0.0.1'', rq_express_session = None,
     rq_fresh_session = ''staff-1-x'', rq_now = 500\<rparr>"

definition ex_created :: db where
  "ex_created = ex_pending\<lparr>
     orders := orders ex_pending @
       [\<lparr>ord_id = 2, ord_total_price = 62, ord_type = ''takeaway'', ord_delivery_address = None,
          ord_promotion_id = None, ord_table_id = None, ord_session_id = ''guest-b'',
          ord_notes = None, ord_status = Pending, ord_approved = False\<rparr>],
     order_items := order_items ex_pending @
       [\<lparr>oi_id = 3, oi_order_id = 2, oi_item_id = Some 5, oi_breakfast_id = None, oi_quantity = 2,
          oi_unit_price = 19/2, oi_supplement_id = Some 7\<rparr>,
        \<lparr>oi_id = 4, oi_order_id = 2, oi_item_id = None, oi_breakfast_id = Some 3, oi_quantity = 3,
          oi_unit_price = 13, oi_supplement_id = None\<rparr>],
     breakfast_order_options := breakfast_order_options ex_pending @
       [\<lparr>boo_order_item_id = 4, boo_breakfast_option_id = 11\<rparr>,
        \<lparr>boo_order_item_id = 4, boo_breakfast_option_id = 13\<rparr>],
     device_order_limits :=
       [\<lparr>dol_device_fingerprint = ''123e4567-e89b-12d3-a456-426614174000'', dol_order_timestamp = 500,
          dol_device_id = ''123e4567-e89b-12d3-a456-426614174000''\<rparr>,
        \<lparr>dol_device_fingerprint = ''10.0.0.1|ua'', dol_order_timestamp = 500,
          dol_device_id = ''123e4567-e89b-12d3-a456-426614174000''\<rparr>],
     notifications := [\<lparr>ntf_id = 1, ntf_type = ''order'', ntf_reference_id = 2\<rparr>]\<rparr>"

definition ex_request_local :: order_request where
  "ex_request_local = ex_request\<lparr>rq_order_type := ''local'', rq_table_id := Some 10, rq_total_price := Some 60\<rparr>"

definition ex_table_taken :: db where
  "ex_table_taken = ex_pending\<lparr>tables := [\<lparr>tbl_id = 1, tbl_number = 10, tbl_status = ''occupied''\<rparr>]\<rparr>"

definition ex_breakfast_only :: order_request where
  "ex_breakfast_only = ex_request\<lparr>rq_items := [],
     rq_breakfastItems := [\<lparr>bi_breakfast_id = 3, bi_quantity = 1, bi_unit_price = 13, bi_option_ids = Some [11]\<rparr>],
     rq_promotion_id := Some 1, rq_total_price := Some (117/10)\<rparr>"

definition ex_staff_request :: order_request where
  "ex_staff_request = ex_request\<lparr>rq_user := Some \<lparr>ru_id = 1, ru_role = ''admin''\<rparr>,
     rq_source := Some ''staff-console''\<rparr>"

definition ex_promo_request :: order_request where
  "ex_promo_request = ex_request\<lparr>rq_promotion_id := Some 1\<rparr>"

definition ex_promo_row :: promotion_row where
  "ex_promo_row = \<lparr>promo_id = 1, promo_discount_percentage = 10, promo_item_id = None,
          promo_start_date = 0, promo_end_date = 1000, promo_active = True\<rparr>"

definition ex_line :: cart_item where
  "ex_line = \<lparr>ci_item_id = 5, ci_quantity = 2, ci_unit_price = 9,
                ci_supplement_ids = None, ci_supplement_id = None\<rparr>"

definition ex_line_supplement :: cart_item where
  "ex_line_supplement = \<lparr>ci_item_id = 5, ci_quantity = 2, ci_unit_price = 9,
                ci_supplement_ids = Some [7], ci_supplement_id = Some 7\<rparr>"

definition ex_menu_item :: menu_item_row where
  "ex_menu_item = \<lparr>mi_id = 5, mi_availability = True, mi_regular_price = 9, mi_sale_price = None\<rparr>"

definition ex_breakfast :: breakfast_row where
  "ex_breakfast = \<lparr>bf_id = 3, bf_availability = True, bf_price = 12\<rparr>"

definition ex_breakfast_line :: "int list option \<Rightarrow> money \<Rightarrow> breakfast_item" where
  "ex_breakfast_line ids price =
     \<lparr>bi_breakfast_id = 3, bi_quantity = 1, bi_unit_price = price, bi_option_ids = ids\<rparr>"

definition ex_breakfast_map :: "(int \<times> breakfast_entry) list" where
  "ex_breakfast_map = [(3, \<lparr>be_quantity = 3, be_unit_price = 13, be_option_ids = [11, 13]\<rparr>)]"

section \<open>Lemmas on the stock ledger\<close>

lemma map_of_map_set: "map_of (map_set k v m) = (map_of m)(k \<mapsto> v)"
  by (induction m) (auto simp: fun_eq_iff)

lemma keys_map_set: "fst ` set (map_set k v m) = insert k (fst ` set m)"
  by (induction m) force+

lemma distinct_map_set: "distinct (map fst m) \<Longrightarrow> distinct (map fst (map_set k v m))"
  by (induction m) (auto simp: keys_map_set)

lemma distinct_add_usage: "distinct (map fst u) \<Longrightarrow> distinct (map fst (add_usage q rows u))"
  unfolding add_usage_def by (induction rows arbitrary: u) (auto simp: distinct_map_set)

lemma or0_add_usage:
  "or0 (map_of (add_usage q rows u) i) = or0 (map_of u i) + rows_requirement rows i * q"
  unfolding add_usage_def rows_requirement_def
proof (induction rows arbitrary: u)
  case Nil then show ?case by simp
next
  case (Cons r rows)
  show ?case unfolding fold_Cons o_apply list.map Cons.IH
    by (simp add: map_of_map_set or0_def algebra_simps)
qed

lemma distinct_option_usage: "distinct (map fst u) \<Longrightarrow> distinct (map fst (option_usage c opt u))"
proof -
  have "\<And>u. distinct (map fst u) \<Longrightarrow> distinct (map fst (fold (\<lambda>ing usage.
         map_set (rc_ingredient_id ing)
           (or0 (map_of usage (rc_ingredient_id ing)) + rc_quantity ing) usage) rows u))" for rows
    by (induction rows) (auto simp: distinct_map_set)
  then show "distinct (map fst u) \<Longrightarrow> distinct (map fst (option_usage c opt u))"
    unfolding option_usage_def by blast
qed

lemma or0_option_usage:
  "or0 (map_of (option_usage c opt u) i) =
     or0 (map_of u i) + rows_requirement (recipe_of (breakfast_option_ingredients c) opt) i"
proof -
  have "or0 (map_of (fold (\<lambda>ing usage.
         map_set (rc_ingredient_id ing)
           (or0 (map_of usage (rc_ingredient_id ing)) + rc_quantity ing) usage) rows u) i)
        = or0 (map_of u i) + rows_requirement rows i" for rows u
    unfolding rows_requirement_def
  proof (induction rows arbitrary: u)
    case Nil then show ?case by simp
  next
    case (Cons r rows)
    show ?case unfolding fold_Cons o_apply list.map Cons.IH
      by (simp add: map_of_map_set or0_def algebra_simps)
  qed
  then show ?thesis unfolding option_usage_def by blast
qed

lemma distinct_item_usage: "distinct (map fst u) \<Longrightarrow> distinct (map fst (item_usage c item u))"
  by (simp add: item_usage_def Let_def distinct_add_usage)

lemma or0_item_usage:
  "or0 (map_of (item_usage c item u) i) = or0 (map_of u i) + line_requirement c item i"
  by (simp add: item_usage_def Let_def or0_add_usage line_requirement_def)

lemma distinct_fold_item: "distinct (map fst u) \<Longrightarrow> distinct (map fst (fold (item_usage c) items u))"
  by (induction items arbitrary: u) (auto simp: distinct_item_usage)

lemma distinct_fold_option: "distinct (map fst u) \<Longrightarrow> distinct (map fst (fold (option_usage c) opts u))"
  by (induction opts arbitrary: u) (auto simp: distinct_option_usage)

lemma or0_fold_item:
  "or0 (map_of (fold (item_usage c) items u) i) =
     or0 (map_of u i) + sum_list (map (\<lambda>item. line_requirement c item i) items)"
  by (induction items arbitrary: u) (simp_all add: or0_item_usage algebra_simps)

lemma or0_fold_option:
  "or0 (map_of (fold (option_usage c) opts u) i) =
     or0 (map_of u i) + sum_list (map (\<lambda>opt. rows_requirement (recipe_of (breakfast_option_ingredients c) opt) i) opts)"
  by (induction opts arbitrary: u) (simp_all add: or0_option_usage algebra_simps)

lemma distinct_ingredientUsage: "distinct (map fst (ingredientUsage s orderId))"
  by (simp add: ingredientUsage_def distinct_fold_option distinct_fold_item)

lemma or0_ingredientUsage: "or0 (map_of (ingredientUsage s orderId) i) = total_required s orderId i"
  unfolding ingredientUsage_def or0_fold_option or0_fold_item total_required_def
  by (simp add: or0_def)






lemma deduct_stock_frame:
  "deduct_stock oid u s = Inr s' \<Longrightarrow>
     cat s' = cat s \<and> tables s' = tables s \<and> orders s' = orders s \<and> order_items s' = order_items s
     \<and> breakfast_order_options s' = breakfast_order_options s
     \<and> device_order_limits s' = device_order_limits s \<and> notifications s' = notifications s"
proof (induction u arbitrary: s)
  case Nil then show ?case by simp
next
  case (Cons p u)
  obtain i q where p: "p = (i, q)" by (cases p)
  from Cons.prems show ?case unfolding p
    by (auto simp: Let_def split: list.splits if_splits dest!: Cons.IH)
qed

lemma stock_of_set_stock:
  "stock_of (s\<lparr>ingredients := set_stock i v (ingredients s), stock_transactions := l\<rparr>) j =
     (if j = i then map_option (\<lambda>_. v) (stock_of s i) else stock_of s j)"
proof -
  have "filter (\<lambda>r. ing_id r = j) (set_stock i v rows) =
        (if j = i then map (\<lambda>r. r\<lparr>ing_quantity_in_stock := v\<rparr>) (filter (\<lambda>r. ing_id r = i) rows)
         else filter (\<lambda>r. ing_id r = j) rows)" for rows
    unfolding set_stock_def by (induction rows) auto
  then show ?thesis by (auto simp: stock_of_def split: list.splits)
qed

lemma deduct_stock_effect:
  "distinct (map fst u) \<Longrightarrow> deduct_stock oid u s = Inr s' \<Longrightarrow>
     stock_of s' i = map_option (\<lambda>a. a - or0 (map_of u i)) (stock_of s i)"
proof (induction u arbitrary: s)
  case Nil then show ?case by (simp add: or0_def option.map_ident)
next
  case (Cons p u)
  obtain k q where p: "p = (k, q)" by (cases p)
  show ?case
  proof (cases "filter (\<lambda>r. ing_id r = k) (ingredients s)")
    case Nil with Cons.prems show ?thesis unfolding p by simp
  next
    case (Cons r rs)
    let ?s1 = "s\<lparr>ingredients := set_stock k (ing_quantity_in_stock r - q) (ingredients s),
                     stock_transactions := stock_transactions s @
                       [\<lparr>st_ingredient_id = k, st_quantity = - q,
                         st_transaction_type = Deduction, st_order_id = Some oid,
                         st_reason = ''Order approval''\<rparr>]\<rparr>"
    from Cons.prems(2) Cons have ok: "\<not> ing_quantity_in_stock r < q" and rest: "deduct_stock oid u ?s1 = Inr s'"
      unfolding p by (auto simp: Let_def split: if_splits)
    from Cons.prems(1) have d: "distinct (map fst u)" and k: "k \<notin> fst ` set u" unfolding p by auto
    have ih: "stock_of s' i = map_option (\<lambda>a. a - or0 (map_of u i)) (stock_of ?s1 i)"
      by (rule Cons.IH[OF d rest])
    have sk: "stock_of s k = Some (ing_quantity_in_stock r)" using Cons by (simp add: stock_of_def)
    from k have nk: "map_of u k = None" by (simp add: map_of_eq_None_iff)
    show ?thesis
    proof (cases "i = k")
      case True
      then show ?thesis using ih sk nk unfolding p by (simp add: stock_of_set_stock or0_def)
    next
      case False
      then show ?thesis using ih unfolding p by (simp add: stock_of_set_stock)
    qed
  qed
qed

lemma deduct_stock_ledger:
  "deduct_stock oid u s = Inr s' \<Longrightarrow>
     stock_transactions s' = stock_transactions s @
       map (\<lambda>(i, q). \<lparr>st_ingredient_id = i, st_quantity = - q,
                         st_transaction_type = Deduction, st_order_id = Some oid,
                         st_reason = ''Order approval''\<rparr>) u"
proof (induction u arbitrary: s)
  case Nil then show ?case by simp
next
  case (Cons p u)
  obtain i q where p: "p = (i, q)" by (cases p)
  from Cons.prems show ?case unfolding p
    by (auto simp: Let_def split: list.splits if_splits dest!: Cons.IH)
qed

lemma filter_set_order:
  "filter (\<lambda>r. ord_id r = j) (set_order i a st rows) =
     (if j = i then map (\<lambda>r. r\<lparr>ord_approved := a, ord_status := st\<rparr>) (filter (\<lambda>r. ord_id r = i) rows)
      else filter (\<lambda>r. ord_id r = j) rows)"
  unfolding set_order_def by (induction rows) auto

lemma authorized_cong: "cat s' = cat s \<Longrightarrow> authorized s' u = authorized s u"
  by (cases u) (simp_all add: authorized_def checkAdminOrServer_def)

lemma approve_success_D:
  assumes a: "approve_order user orderId s = (Inr OrderApproved, s1)"
  shows "\<exists>order rest s'. authorized s user \<and> 0 < orderId \<and>
    filter (\<lambda>r. ord_id r = orderId) (orders s) = order # rest \<and>
    \<not> (ord_approved order \<and> ord_status order \<noteq> Cancelled) \<and> \<not> deduction_exists s orderId \<and>
    deduct_stock orderId (ingredientUsage s orderId) s = Inr s' \<and>
    s1 = s'\<lparr>orders := set_order orderId True Preparing (orders s')\<rparr>"
proof (cases "filter (\<lambda>r. ord_id r = orderId) (orders s)")
  case Nil
  from a show ?thesis unfolding approve_order_def Nil list.case by (simp split: if_splits)
next
  case (Cons order rest)
  show ?thesis
  proof (cases "deduct_stock orderId (ingredientUsage s orderId) s")
    case (Inl e)
    from a show ?thesis unfolding approve_order_def Cons Inl list.case sum.case
      by (simp split: if_splits)
  next
    case (Inr s')
    from a have "authorized s user \<and> 0 < orderId \<and>
      \<not> (ord_approved order \<and> ord_status order \<noteq> Cancelled) \<and> \<not> deduction_exists s orderId \<and>
      s1 = s'\<lparr>orders := set_order orderId True Preparing (orders s')\<rparr>"
      unfolding approve_order_def Cons Inr list.case sum.case
      by (simp split: if_splits)
    then show ?thesis using Cons Inr
      by (intro exI[of _ order] exI[of _ rest] exI[of _ s']) simp
  qed
qed


lemma stock_of_orders_update [simp]: "stock_of (s\<lparr>orders := x\<rparr>) i = stock_of s i"
  by (simp add: stock_of_def)





lemma name_of_Some: "stock_of s i = Some a \<Longrightarrow> \<exists>n. name_of s i = Some n"
  by (auto simp: stock_of_def name_of_def split: list.splits)



lemma put_order_D:
  assumes "authorized s user" "0 < orderId" "filter (\<lambda>r. ord_id r = orderId) (orders s) = order # rest"
  shows "put_order user orderId 1 s =
     (Inr OrderStatusUpdated, s\<lparr>orders := set_order orderId True Preparing (orders s)\<rparr>)"
  unfolding put_order_def assms(3) list.case using assms(1,2) by simp

lemma ingredientUsage_cong:
  "cat s' = cat s \<Longrightarrow> order_items s' = order_items s \<Longrightarrow>
   breakfast_order_options s' = breakfast_order_options s \<Longrightarrow>
   ingredientUsage s' orderId = ingredientUsage s orderId"
  by (simp add: ingredientUsage_def orderItems_of_def breakfastOptions_of_def)






lemma stock_of_cong: "ingredients s' = ingredients s \<Longrightarrow> stock_of s' i = stock_of s i"
  by (simp add: stock_of_def)

section \<open>Lemmas on order admission\<close>








lemma map_of_coalesce:
  "map_of (coalesce l p m) = (map_of m)(bi_breakfast_id l \<mapsto>
     (let e0 = (case map_of m (bi_breakfast_id l) of
                  None \<Rightarrow> \<lparr>be_quantity = 0, be_unit_price = p, be_option_ids = []\<rparr> | Some e \<Rightarrow> e);
          e1 = e0\<lparr>be_quantity := be_quantity e0 + bi_quantity l\<rparr>
      in case bi_option_ids l of None \<Rightarrow> e1
         | Some ids \<Rightarrow> e1\<lparr>be_option_ids := be_option_ids e1 @ filter (\<lambda>i. i \<notin> set (be_option_ids e1)) ids\<rparr>))"
  unfolding coalesce_def Let_def
  by (cases "map_of m (bi_breakfast_id l)"; cases "bi_option_ids l") (simp_all add: map_of_map_set)

lemma keys_coalesce: "set (map fst (coalesce l p m)) = insert (bi_breakfast_id l) (set (map fst m))"
  unfolding coalesce_def Let_def using keys_map_set[of "bi_breakfast_id l" _ m]
  by (auto simp: keys_map_set)

lemma distinct_coalesce: "distinct (map fst m) \<Longrightarrow> distinct (map fst (coalesce l p m))"
  unfolding coalesce_def Let_def by (simp add: distinct_map_set)

lemma coalesced_iff:
  "coalesced m ls = (distinct (map fst m) \<and> set (map fst m) = set (map bi_breakfast_id ls)
      \<and> (\<forall>b e. map_of m b = Some e \<longrightarrow> be_quantity e = summed_quantity ls b
                       \<and> distinct (be_option_ids e) \<and> set (be_option_ids e) = option_union ls b))"
proof (cases "distinct (map fst m)")
  case False then show ?thesis by (simp add: coalesced_def)
next
  case True
  then have "\<And>b e. (map_of m b = Some e) = ((b, e) \<in> set m)" by simp
  then show ?thesis unfolding coalesced_def list_all_iff by auto
qed

lemma coalesced_step:
  assumes inv: "coalesced m ls"
    and d: "case bi_option_ids l of None \<Rightarrow> True | Some ids \<Rightarrow> distinct ids"
  shows "coalesced (coalesce l p m) (ls @ [l])"
proof -
  let ?b = "bi_breakfast_id l"
  from inv have dm: "distinct (map fst m)" and km: "set (map fst m) = set (map bi_breakfast_id ls)"
    and q: "\<And>b e. map_of m b = Some e \<Longrightarrow> be_quantity e = summed_quantity ls b
                       \<and> distinct (be_option_ids e) \<and> set (be_option_ids e) = option_union ls b"
    unfolding coalesced_iff by blast+
  have other: "summed_quantity (ls @ [l]) b = summed_quantity ls b \<and> option_union (ls @ [l]) b = option_union ls b"
    if "b \<noteq> ?b" for b
    using that by (simp add: summed_quantity_def option_union_def lines_of_def)
  have this_q: "summed_quantity (ls @ [l]) ?b = summed_quantity ls ?b + bi_quantity l"
    by (simp add: summed_quantity_def lines_of_def)
  have this_o: "option_union (ls @ [l]) ?b = option_union ls ?b \<union>
      set (case bi_option_ids l of None \<Rightarrow> [] | Some ids \<Rightarrow> ids)"
    by (simp add: option_union_def lines_of_def)
  have absent: "summed_quantity ls ?b = 0 \<and> option_union ls ?b = {}" if "map_of m ?b = None"
  proof -
    from that have "?b \<notin> set (map fst m)" by (simp add: map_of_eq_None_iff)
    then have "lines_of ls ?b = []" unfolding km lines_of_def by (auto simp: filter_empty_conv image_iff)
    then show ?thesis by (simp add: summed_quantity_def option_union_def)
  qed
  show ?thesis
    unfolding coalesced_iff
  proof (intro conjI allI impI)
    show "distinct (map fst (coalesce l p m))" by (rule distinct_coalesce[OF dm])
    show "set (map fst (coalesce l p m)) = set (map bi_breakfast_id (ls @ [l]))"
      unfolding keys_coalesce km by auto
  next
    fix b e assume me: "map_of (coalesce l p m) b = Some e"
    show "be_quantity e = summed_quantity (ls @ [l]) b"
    proof (cases "b = ?b")
      case False
      then show ?thesis using me q[of b e] other[of b] by (simp add: map_of_coalesce)
    next
      case True
      show ?thesis
      proof (cases "map_of m ?b")
        case None
        then show ?thesis using me True absent this_q
          by (auto simp: map_of_coalesce Let_def split: option.splits)
      next
        case (Some e0)
        then show ?thesis using me True q[of ?b e0] this_q
          by (auto simp: map_of_coalesce Let_def split: option.splits)
      qed
    qed
    show "distinct (be_option_ids e)"
    proof (cases "b = ?b")
      case False
      then show ?thesis using me q[of b e] by (simp add: map_of_coalesce)
    next
      case True
      show ?thesis
      proof (cases "map_of m ?b")
        case None
        then show ?thesis using me True d
          by (auto simp: map_of_coalesce Let_def split: option.splits)
      next
        case (Some e0)
        then show ?thesis using me True q[of ?b e0] d
          by (auto simp: map_of_coalesce Let_def split: option.splits)
      qed
    qed
    show "set (be_option_ids e) = option_union (ls @ [l]) b"
    proof (cases "b = ?b")
      case False
      then show ?thesis using me q[of b e] other[of b] by (simp add: map_of_coalesce)
    next
      case True
      show ?thesis
      proof (cases "map_of m ?b")
        case None
        then show ?thesis using me True absent this_o
          by (auto simp: map_of_coalesce Let_def split: option.splits)
      next
        case (Some e0)
        then show ?thesis using me True q[of ?b e0] this_o
          by (auto simp: map_of_coalesce Let_def split: option.splits)
      qed
    qed
  qed
qed

lemma length_filter_key_le1:
  assumes "distinct (map f xs)"
  shows "length (filter (\<lambda>x. f x = k) xs) \<le> 1"
proof -
  have d: "distinct (map f (filter (\<lambda>x. f x = k) xs))" by (rule distinct_map_filter[OF assms])
  have "set (map f (filter (\<lambda>x. f x = k) xs)) \<subseteq> {k}" by auto
  then have "card (set (map f (filter (\<lambda>x. f x = k) xs))) \<le> card {k}"
    by (intro card_mono) simp_all
  then show ?thesis using distinct_card[OF d] by simp
qed

lemma length_concat_le:
  "(\<And>x. x \<in> set xs \<Longrightarrow> length (f x) \<le> 1) \<Longrightarrow> length (concat (map f xs)) \<le> length xs"
proof (induction xs)
  case Nil then show ?case by simp
next
  case (Cons a xs)
  have "length (f a) \<le> 1" by (rule Cons.prems) simp
  moreover have "length (concat (map f xs)) \<le> length xs"
  proof (rule Cons.IH)
    fix x assume "x \<in> set xs"
    then show "length (f x) \<le> 1" using Cons.prems[of x] by simp
  qed
  ultimately show ?case by simp
qed

lemma options_found_distinct:
  assumes o: "option_key_unique c" and g: "group_key_unique c"
    and len: "length (options_found c b ids) = length ids"
  shows "distinct ids"
proof -
  let ?P = "\<lambda>bo. (bo_breakfast_id bo = Some b \<or> bo_breakfast_id bo = None) \<and> bo_id bo \<in> set ids"
  let ?F = "filter ?P (breakfast_options c)"
  have dg: "distinct (map bog_id (breakfast_option_groups c))" using g by (simp add: group_key_unique_def)
  have "length (filter (\<lambda>g. bo_group_id bo = bog_id g) (breakfast_option_groups c)) \<le> 1" for bo
    using length_filter_key_le1[OF dg, of "bo_group_id bo"] by (simp add: eq_commute)
  then have l1: "length (options_found c b ids) \<le> length ?F"
    unfolding options_found_def by (intro length_concat_le) simp
  have dF: "distinct (map bo_id ?F)"
    using o unfolding option_key_unique_def by (rule distinct_map_filter)
  have "set (map bo_id ?F) \<subseteq> set ids" by auto
  then have "card (set (map bo_id ?F)) \<le> card (set ids)" by (intro card_mono) simp_all
  then have "length ?F \<le> card (set ids)" using distinct_card[OF dF] by simp
  then have "length ids \<le> card (set ids)" using l1 len by simp
  moreover have "card (set ids) \<le> length ids" by (rule card_length)
  ultimately have "card (set ids) = length ids" by simp
  then show ?thesis by (rule card_distinct)
qed

lemma check_options_distinct:
  assumes "option_key_unique c" "group_key_unique c"
    and "check_options c b ids_opt = Inr price"
  shows "case ids_opt of None \<Rightarrow> True | Some ids \<Rightarrow> distinct ids"
proof (cases ids_opt)
  case None then show ?thesis by simp
next
  case (Some ids)
  show ?thesis
  proof (cases "ids = []")
    case True then show ?thesis using Some by simp
  next
    case False
    have "length (options_found c b ids) = length ids"
    proof (rule ccontr)
      assume "length (options_found c b ids) \<noteq> length ids"
      then show False using assms(3) False unfolding Some check_options_def Let_def by simp
    qed
    then show ?thesis using Some options_found_distinct[OF assms(1,2)] by simp
  qed
qed

lemma verify_breakfast_D:
  assumes "option_key_unique c" "group_key_unique c"
    and "verify_breakfast c item acc = Inr acc'"
  shows "\<exists>p. snd acc' = coalesce item p (snd acc)
           \<and> (case bi_option_ids item of None \<Rightarrow> True | Some ids \<Rightarrow> distinct ids)"
proof (cases "filter (\<lambda>b. bf_id b = bi_breakfast_id item) (breakfasts c)")
  case Nil
  with assms(3) show ?thesis unfolding verify_breakfast_def by (simp split: if_splits)
next
  case (Cons breakfast rest)
  show ?thesis
  proof (cases "check_options c (bi_breakfast_id item) (bi_option_ids item)")
    case (Inl e)
    from assms(3) show ?thesis unfolding verify_breakfast_def Cons list.case Inl sum.case
      by (simp split: if_splits)
  next
    case (Inr price)
    have d: "case bi_option_ids item of None \<Rightarrow> True | Some ids \<Rightarrow> distinct ids"
      by (rule check_options_distinct[OF assms(1,2) Inr])
    from assms(3) have "\<exists>p. snd acc' = coalesce item p (snd acc)"
      unfolding verify_breakfast_def Cons list.case Inr sum.case Let_def
      by (auto split: if_splits)
    then show ?thesis using d by blast
  qed
qed

lemma verify_breakfasts_coalesced:
  assumes "option_key_unique c" "group_key_unique c"
  shows "verify_breakfasts c lines acc = Inr acc' \<Longrightarrow> coalesced (snd acc) ls \<Longrightarrow>
         coalesced (snd acc') (ls @ lines)"
proof (induction lines arbitrary: acc ls)
  case Nil then show ?case by simp
next
  case (Cons l lines)
  from Cons.prems(1) obtain acc1 where v: "verify_breakfast c l acc = Inr acc1"
    and r: "verify_breakfasts c lines acc1 = Inr acc'"
    by (cases "verify_breakfast c l acc") simp_all
  from verify_breakfast_D[OF assms v] obtain p where s: "snd acc1 = coalesce l p (snd acc)"
    and d: "case bi_option_ids l of None \<Rightarrow> True | Some ids \<Rightarrow> distinct ids" by blast
  have "coalesced (snd acc1) (ls @ [l])" unfolding s by (rule coalesced_step[OF Cons.prems(2) d])
  from Cons.IH[OF r this] show ?case by simp
qed

lemma verify_cart_coalesced:
  assumes "option_key_unique c" "group_key_unique c" "verify_cart c req = Inr (t, m)"
  shows "coalesced m (rq_breakfastItems req)"
proof -
  from assms(3) obtain t0 where "verify_breakfasts c (rq_breakfastItems req) (t0, []) = Inr (t, m)"
    unfolding verify_cart_def by (cases "verify_items c (rq_items req) 0") simp_all
  from verify_breakfasts_coalesced[OF assms(1,2) this, of "[]"] show ?thesis
    by (simp add: coalesced_def)
qed

lemma fresh_id_gt: "x \<in> set ids \<Longrightarrow> x < fresh_id ids"
proof -
  assume "x \<in> set ids"
  then have "x \<le> Max (set (0 # ids))" by (intro Max_ge) simp_all
  then show ?thesis unfolding fresh_id_def Max.set_eq_fold by simp
qed

lemma insert_breakfasts_rows:
  "\<exists>rows opts. order_items (insert_breakfasts oid m s) = order_items s @ rows
     \<and> breakfast_order_options (insert_breakfasts oid m s) = breakfast_order_options s @ opts
     \<and> list_all2 (\<lambda>r e. oi_order_id r = oid \<and> oi_breakfast_id r = Some (fst e)
            \<and> oi_quantity r = be_quantity (snd e)
            \<and> map boo_breakfast_option_id (filter (\<lambda>x. boo_order_item_id x = oi_id r) opts)
                = be_option_ids (snd e)) rows m
     \<and> (\<forall>r\<in>set rows. \<forall>r0\<in>set (order_items s). oi_id r0 < oi_id r)
     \<and> (\<forall>x\<in>set opts. boo_order_item_id x \<in> oi_id ` set rows)
     \<and> same_but_items s (insert_breakfasts oid m s)"
proof (induction m arbitrary: s)
  case Nil
  show ?case by (simp add: insert_breakfasts_def same_but_items_def)
next
  case (Cons e m)
  let ?id = "fresh_id (map oi_id (order_items s))"
  let ?r1 = "\<lparr>oi_id = ?id, oi_order_id = oid, oi_item_id = None,
             oi_breakfast_id = Some (fst e), oi_quantity = be_quantity (snd e),
             oi_unit_price = be_unit_price (snd e), oi_supplement_id = None\<rparr>"
  let ?o1 = "map (\<lambda>optionId. \<lparr>boo_order_item_id = ?id, boo_breakfast_option_id = optionId\<rparr>)
             (be_option_ids (snd e))"
  let ?s1 = "insert_breakfast oid e s"
  have oi1: "order_items ?s1 = order_items s @ [?r1]" by (simp add: insert_breakfast_def Let_def)
  have bo1: "breakfast_order_options ?s1 = breakfast_order_options s @ ?o1"
    by (simp add: insert_breakfast_def Let_def)
  have fr1: "same_but_items s ?s1" by (simp add: insert_breakfast_def Let_def same_but_items_def)
  have step: "insert_breakfasts oid (e # m) s = insert_breakfasts oid m ?s1"
    by (simp add: insert_breakfasts_def)
  from Cons.IH[of ?s1] obtain rows opts where
    a: "order_items (insert_breakfasts oid m ?s1) = order_items ?s1 @ rows"
    and b: "breakfast_order_options (insert_breakfasts oid m ?s1) = breakfast_order_options ?s1 @ opts"
    and c: "list_all2 (\<lambda>r e. oi_order_id r = oid \<and> oi_breakfast_id r = Some (fst e)
            \<and> oi_quantity r = be_quantity (snd e)
            \<and> map boo_breakfast_option_id (filter (\<lambda>x. boo_order_item_id x = oi_id r) opts)
                = be_option_ids (snd e)) rows m"
    and d: "\<forall>r\<in>set rows. \<forall>r0\<in>set (order_items ?s1). oi_id r0 < oi_id r"
    and f: "\<forall>x\<in>set opts. boo_order_item_id x \<in> oi_id ` set rows"
    and g: "same_but_items ?s1 (insert_breakfasts oid m ?s1)"
    by blast
  have gt1: "?id < oi_id r" if "r \<in> set rows" for r
    using d that unfolding oi1 by auto
  have old: "oi_id r0 < ?id" if "r0 \<in> set (order_items s)" for r0
    using that by (intro fresh_id_gt) simp
  have no1: "filter (\<lambda>x. boo_order_item_id x = ?id) opts = []"
  proof -
    have "boo_order_item_id x \<noteq> ?id" if "x \<in> set opts" for x
    proof -
      from f that obtain r where "r \<in> set rows" "boo_order_item_id x = oi_id r" by auto
      then show ?thesis using gt1[of r] by simp
    qed
    then show ?thesis by (auto simp: filter_empty_conv)
  qed
  have f1: "filter (\<lambda>x. boo_order_item_id x = ?id) (?o1 @ opts) = ?o1"
    unfolding filter_append no1 by (simp add: filter_map comp_def)
  have fo: "filter (\<lambda>x. boo_order_item_id x = oi_id r) (?o1 @ opts)
          = filter (\<lambda>x. boo_order_item_id x = oi_id r) opts" if "r \<in> set rows" for r
  proof -
    have "oi_id r \<noteq> ?id" using gt1[OF that] by simp
    then have "filter (\<lambda>x. boo_order_item_id x = oi_id r) ?o1 = []"
      by (auto simp: filter_empty_conv)
    then show ?thesis by simp
  qed
  have c': "list_all2 (\<lambda>r e. oi_order_id r = oid \<and> oi_breakfast_id r = Some (fst e)
            \<and> oi_quantity r = be_quantity (snd e)
            \<and> map boo_breakfast_option_id (filter (\<lambda>x. boo_order_item_id x = oi_id r) (?o1 @ opts))
                = be_option_ids (snd e)) rows m"
    using c by (rule list.rel_mono_strong) (simp only: fo)
  have head: "oi_order_id ?r1 = oid \<and> oi_breakfast_id ?r1 = Some (fst e)
            \<and> oi_quantity ?r1 = be_quantity (snd e)
            \<and> map boo_breakfast_option_id (filter (\<lambda>x. boo_order_item_id x = oi_id ?r1) (?o1 @ opts))
                = be_option_ids (snd e)"
    using f1 by (simp add: comp_def)
  have A: "order_items (insert_breakfasts oid (e # m) s) = order_items s @ (?r1 # rows)"
    unfolding step a oi1 by simp
  have B: "breakfast_order_options (insert_breakfasts oid (e # m) s) = breakfast_order_options s @ (?o1 @ opts)"
    unfolding step b bo1 by simp
  have C: "list_all2 (\<lambda>r e. oi_order_id r = oid \<and> oi_breakfast_id r = Some (fst e)
            \<and> oi_quantity r = be_quantity (snd e)
            \<and> map boo_breakfast_option_id (filter (\<lambda>x. boo_order_item_id x = oi_id r) (?o1 @ opts))
                = be_option_ids (snd e)) (?r1 # rows) (e # m)"
    using head c' by (simp only: list.rel_inject simp_thms)
  have D: "\<forall>r\<in>set (?r1 # rows). \<forall>r0\<in>set (order_items s). oi_id r0 < oi_id r"
  proof (intro ballI)
    fix r r0 assume r: "r \<in> set (?r1 # rows)" and r0: "r0 \<in> set (order_items s)"
    show "oi_id r0 < oi_id r"
    proof (cases "r = ?r1")
      case True then show ?thesis using old[OF r0] by simp
    next
      case False
      then have "r \<in> set rows" using r by simp
      then show ?thesis using old[OF r0] gt1[of r] by simp
    qed
  qed
  have E: "\<forall>x\<in>set (?o1 @ opts). boo_order_item_id x \<in> oi_id ` set (?r1 # rows)"
    using f by auto
  have G: "same_but_items s (insert_breakfasts oid (e # m) s)"
    using fr1 g unfolding step same_but_items_def by simp
  show ?case
    by (rule exI[of _ "?r1 # rows"], rule exI[of _ "?o1 @ opts"]) (intro conjI A B C D E G)
qed

lemma insert_items_rows:
  "\<exists>rows. order_items (insert_items oid items s) = order_items s @ rows
     \<and> list_all (\<lambda>r. oi_breakfast_id r = None) rows
     \<and> breakfast_order_options (insert_items oid items s) = breakfast_order_options s
     \<and> cat (insert_items oid items s) = cat s"
proof (induction items arbitrary: s)
  case Nil show ?case by (simp add: insert_items_def)
next
  case (Cons item items)
  let ?s1 = "s\<lparr>order_items := order_items s @
             [\<lparr>oi_id = fresh_id (map oi_id (order_items s)), oi_order_id = oid,
               oi_item_id = Some (ci_item_id item), oi_breakfast_id = None,
               oi_quantity = ci_quantity item, oi_unit_price = ci_unit_price item,
               oi_supplement_id = (case supplementIds_of item of [] \<Rightarrow> None | p # _ \<Rightarrow> Some p)\<rparr>]\<rparr>"
  have step: "insert_items oid (item # items) s = insert_items oid items ?s1"
    by (simp add: insert_items_def)
  from Cons.IH[of ?s1] obtain rows where
    a: "order_items (insert_items oid items ?s1) = order_items ?s1 @ rows"
    and b: "list_all (\<lambda>r. oi_breakfast_id r = None) rows"
    and c: "breakfast_order_options (insert_items oid items ?s1) = breakfast_order_options ?s1"
    and d: "cat (insert_items oid items ?s1) = cat ?s1" by blast
  show ?case unfolding step using a b c d by simp
qed

lemma create_order_success_D:
  assumes "create_order req recent s = (Inr (OrderCreated oid), recent', s')"
  shows "\<exists>sid s1 t m tid s2 ft. admission_checks req recent s = (Inr sid, recent', s1)
     \<and> verify_cart (cat s1) req = Inr (t, m) \<and> table_step req s1 = Inr (tid, s2)
     \<and> promo_total (cat s2) req t = Inr ft
     \<and> \<not> \<bar>or0 (rq_total_price req) - ft\<bar> > 1 / 100
     \<and> persist_order req sid tid ft m s2 = Inr (oid, s')"
proof -
  obtain a r1 s1 where ac: "admission_checks req recent s = (a, r1, s1)"
    by (cases "admission_checks req recent s")
  show ?thesis
  proof (cases a)
    case (Inl e)
    with assms ac show ?thesis by (simp add: create_order_def)
  next
    case (Inr sid)
    note a = this
    show ?thesis
    proof (cases "verify_cart (cat s1) req")
      case (Inl e)
      with assms ac a show ?thesis by (simp add: create_order_def)
    next
      case (Inr tm)
      obtain t m where tm: "tm = (t, m)" by (cases tm)
      note vc = Inr[unfolded tm]
      show ?thesis
      proof (cases "table_step req s1")
        case (Inl e)
        with assms ac a vc show ?thesis by (simp add: create_order_def)
      next
        case (Inr ts)
        obtain tid s2 where ts: "ts = (tid, s2)" by (cases ts)
        note tb = Inr[unfolded ts]
        show ?thesis
        proof (cases "promo_total (cat s2) req t")
          case (Inl e)
          with assms ac a vc tb show ?thesis by (simp add: create_order_def)
        next
          case (Inr ft)
          note pt = this
          show ?thesis
          proof (cases "persist_order req sid tid ft m s2")
            case (Inl e)
            with assms ac a vc tb pt show ?thesis by (simp add: create_order_def split: if_splits)
          next
            case (Inr os)
            obtain o3 s3 where os: "os = (o3, s3)" by (cases os)
            from assms ac a vc tb pt Inr[unfolded os] show ?thesis
              by (simp add: create_order_def split: if_splits)
          qed
        qed
      qed
    qed
  qed
qed

lemma admission_checks_frame:
  "admission_checks req recent s = (a, r1, s1) \<Longrightarrow>
     cat s1 = cat s \<and> tables s1 = tables s \<and> orders s1 = orders s \<and> order_items s1 = order_items s
   \<and> breakfast_order_options s1 = breakfast_order_options s \<and> ingredients s1 = ingredients s
   \<and> stock_transactions s1 = stock_transactions s \<and> notifications s1 = notifications s"
  unfolding admission_checks_def Let_def purge_limits_def
  by (auto split: if_splits option.splits)

lemma table_step_frame:
  "table_step req s = Inr (tid, s2) \<Longrightarrow>
     cat s2 = cat s \<and> orders s2 = orders s \<and> order_items s2 = order_items s
   \<and> breakfast_order_options s2 = breakfast_order_options s \<and> ingredients s2 = ingredients s
   \<and> stock_transactions s2 = stock_transactions s \<and> notifications s2 = notifications s
   \<and> device_order_limits s2 = device_order_limits s"
  unfolding table_step_def
  by (auto split: if_splits list.splits)

lemma persist_order_items:
  assumes "persist_order req sid tid ft m s = Inr (oid, s')"
  shows "order_items s' = order_items (insert_breakfasts oid m (insert_items oid (rq_items req) s))
       \<and> breakfast_order_options s' =
           breakfast_order_options (insert_breakfasts oid m (insert_items oid (rq_items req) s))"
proof -
  let ?oid = "fresh_id (map ord_id (orders s))"
  let ?s2 = "insert_limits req (insert_order req sid tid ft ?oid s)"
  let ?s4 = "insert_breakfasts ?oid m (insert_items ?oid (rq_items req) ?s2)"
  have oi: "order_items (insert_breakfasts o1 m (insert_items o1 its ?s2))
        = order_items (insert_breakfasts o1 m (insert_items o1 its s))
      \<and> breakfast_order_options (insert_breakfasts o1 m (insert_items o1 its ?s2))
        = breakfast_order_options (insert_breakfasts o1 m (insert_items o1 its s))" for o1 its
  proof -
    have e: "order_items ?s2 = order_items s \<and> breakfast_order_options ?s2 = breakfast_order_options s"
      by (simp add: insert_limits_def insert_order_def)
    have i: "order_items a = order_items b \<Longrightarrow> breakfast_order_options a = breakfast_order_options b \<Longrightarrow>
       order_items (insert_items o1 its a) = order_items (insert_items o1 its b)
       \<and> breakfast_order_options (insert_items o1 its a) = breakfast_order_options (insert_items o1 its b)"
      for a b :: db
      unfolding insert_items_def by (induction its arbitrary: a b) simp_all
    have j: "order_items a = order_items b \<Longrightarrow> breakfast_order_options a = breakfast_order_options b \<Longrightarrow>
       order_items (insert_breakfasts o1 m a) = order_items (insert_breakfasts o1 m b)
       \<and> breakfast_order_options (insert_breakfasts o1 m a) = breakfast_order_options (insert_breakfasts o1 m b)"
      for a b :: db
      unfolding insert_breakfasts_def
      by (induction m arbitrary: a b) (simp_all add: insert_breakfast_def Let_def)
    from e i[of ?s2 s] have "order_items (insert_items o1 its ?s2) = order_items (insert_items o1 its s)
       \<and> breakfast_order_options (insert_items o1 its ?s2) = breakfast_order_options (insert_items o1 its s)"
      by blast
    then show ?thesis using j by blast
  qed
  show ?thesis
  proof (cases "isStaffRequest req")
    case False
    from assms have "oid = ?oid" and "s' = insert_notification req ?oid ?s4"
      unfolding persist_order_def Let_def using False by auto
    then show ?thesis using oi[of ?oid "rq_items req"] by (simp add: insert_notification_def)
  next
    case True
    show ?thesis
    proof (cases "deduct_stock ?oid (ingredientUsage ?s4 ?oid) ?s4")
      case (Inl e)
      from assms show ?thesis unfolding persist_order_def Let_def Inl using True by simp
    next
      case (Inr s5)
      from assms have o: "oid = ?oid"
        and s': "s' = insert_notification req ?oid (s5\<lparr>orders := set_order ?oid True Preparing (orders s5)\<rparr>)"
        unfolding persist_order_def Let_def Inr using True by auto
      from deduct_stock_frame[OF Inr] have "order_items s5 = order_items ?s4"
        "breakfast_order_options s5 = breakfast_order_options ?s4" by simp_all
      then show ?thesis unfolding o s' using oi[of ?oid "rq_items req"]
        by (simp add: insert_notification_def)
    qed
  qed
qed

lemma list_all2_all:
  "list_all2 R xs ys \<Longrightarrow> list_all P ys \<Longrightarrow> (\<And>x y. R x y \<Longrightarrow> P y \<Longrightarrow> Q x) \<Longrightarrow> list_all Q xs"
  by (induction rule: list_all2_induct) auto

lemma supplements_found_Nil [simp]: "supplements_found c i [] = []"
  by (simp add: supplements_found_def)















lemma insert_items_order_id:
  "\<exists>rows. order_items (insert_items oid items s) = order_items s @ rows
     \<and> list_all (\<lambda>r. oi_order_id r = oid) rows"
proof (induction items arbitrary: s)
  case Nil show ?case by (simp add: insert_items_def)
next
  case (Cons item items)
  let ?s1 = "s\<lparr>order_items := order_items s @
             [\<lparr>oi_id = fresh_id (map oi_id (order_items s)), oi_order_id = oid,
               oi_item_id = Some (ci_item_id item), oi_breakfast_id = None,
               oi_quantity = ci_quantity item, oi_unit_price = ci_unit_price item,
               oi_supplement_id = (case supplementIds_of item of [] \<Rightarrow> None | p # _ \<Rightarrow> Some p)\<rparr>]\<rparr>"
  have step: "insert_items oid (item # items) s = insert_items oid items ?s1"
    by (simp add: insert_items_def)
  from Cons.IH[of ?s1] obtain rows where
    a: "order_items (insert_items oid items ?s1) = order_items ?s1 @ rows"
    and b: "list_all (\<lambda>r. oi_order_id r = oid) rows" by blast
  show ?case unfolding step using a b by simp
qed

lemma persist_order_id:
  "persist_order req sid tid ft m s = Inr (oid, s') \<Longrightarrow> oid = fresh_id (map ord_id (orders s))"
  unfolding persist_order_def Let_def by (auto split: if_splits sum.splits)

lemma order_rows_appended:
  assumes "option_key_unique (cat s)" and "group_key_unique (cat s)"
    and "create_order req recent s = (Inr (OrderCreated oid), recent', s')"
    and "items_reference_orders s" and "options_reference_items s"
  shows "filter (\<lambda>r. oi_order_id r = oid) (order_items s') = added_items s s'
     \<and> list_all (\<lambda>r. map boo_breakfast_option_id
                        (filter (\<lambda>x. boo_order_item_id x = oi_id r) (breakfast_order_options s'))
                      = options_of_row s s' r) (breakfast_rows s s')"
proof -
  from create_order_success_D[OF assms(3)] obtain sid s1 t m tid s2 ft where
    ac: "admission_checks req recent s = (Inr sid, recent', s1)"
    and vc: "verify_cart (cat s1) req = Inr (t, m)" and tb: "table_step req s1 = Inr (tid, s2)"
    and po: "persist_order req sid tid ft m s2 = Inr (oid, s')" by blast
  note f1 = admission_checks_frame[OF ac]
  note f2 = table_step_frame[OF tb]
  have oid: "oid = fresh_id (map ord_id (orders s))"
    using persist_order_id[OF po] f1 f2 by simp
  let ?s3 = "insert_items oid (rq_items req) s2"
  from insert_items_rows[of oid "rq_items req" s2] obtain irows where
    i1: "order_items ?s3 = order_items s2 @ irows" and i2: "list_all (\<lambda>r. oi_breakfast_id r = None) irows"
    and i3: "breakfast_order_options ?s3 = breakfast_order_options s2" by blast
  from insert_items_order_id[of oid "rq_items req" s2] i1 have i4: "list_all (\<lambda>r. oi_order_id r = oid) irows"
    by auto
  from insert_breakfasts_rows[of oid m ?s3] obtain rows opts where
    b1: "order_items (insert_breakfasts oid m ?s3) = order_items ?s3 @ rows"
    and b2: "breakfast_order_options (insert_breakfasts oid m ?s3) = breakfast_order_options ?s3 @ opts"
    and b3: "list_all2 (\<lambda>r e. oi_order_id r = oid \<and> oi_breakfast_id r = Some (fst e)
            \<and> oi_quantity r = be_quantity (snd e)
            \<and> map boo_breakfast_option_id (filter (\<lambda>x. boo_order_item_id x = oi_id r) opts)
                = be_option_ids (snd e)) rows m"
    and b4: "\<forall>r\<in>set rows. \<forall>r0\<in>set (order_items ?s3). oi_id r0 < oi_id r"
    by blast
  have oi: "order_items s' = order_items s @ irows @ rows"
    using persist_order_items[OF po] b1 i1 f1 f2 by simp
  have bo: "breakfast_order_options s' = breakfast_order_options s @ opts"
    using persist_order_items[OF po] b2 i3 f1 f2 by simp
  have ai: "added_items s s' = irows @ rows" by (simp add: added_items_def oi)
  have ao: "added_options s s' = opts" by (simp add: added_options_def bo)
  have ro: "list_all (\<lambda>r. oi_order_id r = oid) rows"
    using b3 by (induction rule: list_all2_induct) auto
  have rs: "list_all (\<lambda>r. oi_breakfast_id r \<noteq> None) rows"
    using b3 by (induction rule: list_all2_induct) auto
  have "filter (\<lambda>r. oi_breakfast_id r \<noteq> None) irows = []"
    using i2 by (auto simp: filter_empty_conv list_all_iff)
  moreover have "filter (\<lambda>r. oi_breakfast_id r \<noteq> None) rows = rows"
    using rs by (auto simp: list_all_iff)
  ultimately have br: "breakfast_rows s s' = rows" by (simp add: breakfast_rows_def ai)
  have old: "filter (\<lambda>r. oi_order_id r = oid) (order_items s) = []"
  proof -
    have "oi_order_id r \<noteq> oid" if "r \<in> set (order_items s)" for r
    proof -
      from assms(4) that have "oi_order_id r \<in> set (map ord_id (orders s))"
        by (simp add: items_reference_orders_def list_all_iff)
      from fresh_id_gt[OF this] show ?thesis unfolding oid by simp
    qed
    then show ?thesis by (auto simp: filter_empty_conv)
  qed
  have new: "filter (\<lambda>r. oi_order_id r = oid) (irows @ rows) = irows @ rows"
    using i4 ro by (auto simp: list_all_iff)
  have A: "filter (\<lambda>r. oi_order_id r = oid) (order_items s') = added_items s s'"
    unfolding oi ai filter_append old using new by simp
  have oldopt: "filter (\<lambda>x. boo_order_item_id x = oi_id r) (breakfast_order_options s) = []"
    if "r \<in> set rows" for r
  proof -
    have "boo_order_item_id x \<noteq> oi_id r" if x: "x \<in> set (breakfast_order_options s)" for x
    proof -
      from assms(5) x obtain r0 where r0: "r0 \<in> set (order_items s)" "boo_order_item_id x = oi_id r0"
        by (auto simp: options_reference_items_def list_all_iff)
      then have "r0 \<in> set (order_items ?s3)" using i1 f1 f2 by simp
      with b4 \<open>r \<in> set rows\<close> have "oi_id r0 < oi_id r" by blast
      then show ?thesis using r0 by simp
    qed
    then show ?thesis by (auto simp: filter_empty_conv)
  qed
  have B: "list_all (\<lambda>r. map boo_breakfast_option_id
                        (filter (\<lambda>x. boo_order_item_id x = oi_id r) (breakfast_order_options s'))
                      = options_of_row s s' r) rows"
    unfolding list_all_iff options_of_row_def ao bo filter_append using oldopt by simp
  show ?thesis using A B unfolding br by blast
qed

section \<open>Evaluating the worked store\<close>

lemmas ex_defs = ex_catalog_def ex_state_def ex_deductions_def ex_restorations_def admin_def
  deduction_row_def restoration_row_def ex_pending_def ex_approved_def ex_flag_reset_def
  ex_cancelled_def ex_reapproved_def ex_short_def
  ex_request_def ex_created_def ex_request_local_def ex_table_taken_def ex_breakfast_only_def
  ex_staff_request_def ex_promo_request_def ex_promo_row_def ex_line_def ex_line_supplement_def
  ex_menu_item_def ex_breakfast_def ex_breakfast_line_def ex_breakfast_map_def

lemmas ledger_defs = ingredientUsage_def orderItems_of_def breakfastOptions_of_def item_usage_def
  option_usage_def add_usage_def recipe_of_def truthy_def or0_def set_stock_def set_order_def
  deduction_exists_def restoration_exists_def authorized_def checkAdminOrServer_def
  stock_of_def name_of_def order_of_def stock_nonneg_def

lemma ex_usage: "ingredientUsage (ex_state a b c l ap st) 1 = [(1, 3), (2, 1), (3, 3)]"
  by (simp add: ex_defs ledger_defs)

lemma ex_approve: "approve_order admin 1 ex_pending = (Inr OrderApproved, ex_approved)"
  unfolding ex_pending_def ex_approved_def
  by (simp add: approve_order_def ex_usage) (simp add: ex_defs ledger_defs)




lemma ex_put: "put_order admin 1 1 ex_cancelled = (Inr OrderStatusUpdated, ex_reapproved)"
  unfolding ex_cancelled_def ex_reapproved_def
  by (simp add: put_order_def) (simp add: ex_defs ledger_defs)

lemmas admission_defs = admission_checks_def isStaffRequest_def deviceId_of_def or_str_def truthy_str_def
  uuidRegex_def hex_digit_def purge_limits_def orderCount_def fingerprints_def sessionId_of_def
  blank_def is_space_def orderHash_def shape_check_def truthy_def

lemmas pricing_defs = verify_cart_def verify_item_def supplementIds_of_def supplements_found_def
  base_price_def or0_def verify_breakfast_def check_options_def groups_of_def has_option_def
  options_found_def group_label_def coalesce_def truthy_def truthy_str_def

lemmas persist_defs = persist_order_def insert_order_def insert_limits_def insert_items_def
  insert_breakfasts_def insert_breakfast_def insert_notification_def fresh_id_def null_if_empty_def
  supplementIds_of_def truthy_def truthy_str_def isStaffRequest_def fingerprints_def deviceId_of_def
  or_str_def

lemma ex_admission:
  "admission_checks ex_request [] ex_pending = (Inr ''guest-b'', [orderHash ex_request ''guest-b''], ex_pending)"
  by (simp add: ex_defs admission_defs)

lemma ex_admission_local:
  "admission_checks ex_request_local [] ex_pending =
     (Inr ''guest-b'', [orderHash ex_request_local ''guest-b''], ex_pending)"
  by (simp add: ex_defs admission_defs)


lemma ex_verify_cart:
  "verify_cart ex_catalog ex_request =
     Inr (62, [(3, \<lparr>be_quantity = 3, be_unit_price = 13, be_option_ids = [11, 13]\<rparr>)])"
  by (simp add: ex_defs pricing_defs)

lemma ex_cat: "cat ex_pending = ex_catalog" by (simp add: ex_defs)

lemma ex_create: "create_order ex_request [] ex_pending =
    (Inr (OrderCreated 2), [orderHash ex_request ''guest-b''], ex_created)"
proof -
  have t: "table_step ex_request ex_pending = Inr (None, ex_pending)"
    by (simp add: table_step_def ex_request_def truthy_def)
  have p: "promo_total ex_catalog ex_request 62 = Inr 62"
    by (simp add: promo_total_def promo_found_def truthy_def ex_request_def)
  have tp: "or0 (rq_total_price ex_request) = 62" by (simp add: ex_request_def or0_def)
  have po: "persist_order ex_request ''guest-b'' None 62
       [(3, \<lparr>be_quantity = 3, be_unit_price = 13, be_option_ids = [11, 13]\<rparr>)] ex_pending
      = Inr (2, ex_created)"
    by (simp add: ex_defs persist_defs)
  show ?thesis
    unfolding create_order_def ex_admission prod.case sum.case ex_cat ex_verify_cart t p tp po
    by simp
qed

lemma ex_create_local: "create_order ex_request_local [] ex_pending =
    (Inl (TotalPriceMismatch 62 60), [orderHash ex_request_local ''guest-b''], ex_table_taken)"
proof -
  have v: "verify_cart ex_catalog ex_request_local =
     Inr (62, [(3, \<lparr>be_quantity = 3, be_unit_price = 13, be_option_ids = [11, 13]\<rparr>)])"
    by (simp add: ex_defs pricing_defs)
  have t: "table_step ex_request_local ex_pending = Inr (Some 1, ex_table_taken)"
    by (simp add: table_step_def ex_defs truthy_def)
  have c: "cat ex_table_taken = ex_catalog" by (simp add: ex_defs)
  have p: "promo_total ex_catalog ex_request_local 62 = Inr 62"
    by (simp add: promo_total_def promo_found_def truthy_def ex_defs)
  have tp: "or0 (rq_total_price ex_request_local) = 60" by (simp add: ex_defs or0_def)
  show ?thesis
    unfolding create_order_def ex_admission_local prod.case sum.case ex_cat v t c p tp
    by simp
qed


section \<open>Claims on approval, cancellation and the stock ledger\<close>

text \<open>
  Claim C1. Calling Approve twice on an order deducts stock exactly once. When the first
  call succeeds, it lowers every ingredient by the order's requirement and appends one
  deduction row per ingredient of the map, and the second call fails with
  AlreadyApproved and returns the store as it found it, so stock quantities and the
  ledger are unchanged by it. In any store, Approve on an order that has approved set
  and a status other than cancelled fails with AlreadyApproved; on an order that passes
  that test but already has a deduction row it fails with AlreadyDeducted; both leave
  the store unchanged.
\<close>

theorem approve_idempotent:
  "(approve_order user orderId s = (Inr OrderApproved, s1) \<longrightarrow>
      approve_order user orderId s1 = (Inl AlreadyApproved, s1)
    \<and> (\<forall>i. stock_of s1 i = map_option (\<lambda>a. a - total_required s orderId i) (stock_of s i))
    \<and> stock_transactions s1 = stock_transactions s @ map (deduction_row orderId) (ingredientUsage s orderId))
 \<and> (authorized t user \<and> 0 < orderId \<and> order_of t orderId = Some order \<longrightarrow>
      (ord_approved order \<and> ord_status order \<noteq> Cancelled \<longrightarrow>
         approve_order user orderId t = (Inl AlreadyApproved, t))
    \<and> (\<not> (ord_approved order \<and> ord_status order \<noteq> Cancelled) \<and> deduction_exists t orderId \<longrightarrow>
         approve_order user orderId t = (Inl AlreadyDeducted, t)))"
proof (intro conjI impI)
  assume a: "approve_order user orderId s = (Inr OrderApproved, s1)"
  from approve_success_D[OF a] obtain order rest s' where au: "authorized s user" and pos: "0 < orderId"
    and f: "filter (\<lambda>r. ord_id r = orderId) (orders s) = order # rest"
    and d: "deduct_stock orderId (ingredientUsage s orderId) s = Inr s'"
    and s1: "s1 = s'\<lparr>orders := set_order orderId True Preparing (orders s')\<rparr>"
    by (elim exE conjE)
  note fr = deduct_stock_frame[OF d]
  have "cat s1 = cat s" using fr by (simp add: s1)
  then have au1: "authorized s1 user" using au authorized_cong[of s1 s user] by simp
  have f1: "filter (\<lambda>r. ord_id r = orderId) (orders s1) =
      order\<lparr>ord_approved := True, ord_status := Preparing\<rparr> #
      map (\<lambda>r. r\<lparr>ord_approved := True, ord_status := Preparing\<rparr>) rest"
    using f fr by (simp add: s1 filter_set_order)
  show "approve_order user orderId s1 = (Inl AlreadyApproved, s1)"
    unfolding approve_order_def f1 list.case using au1 pos by simp
  show "\<forall>i. stock_of s1 i = map_option (\<lambda>a. a - total_required s orderId i) (stock_of s i)"
    using deduct_stock_effect[OF distinct_ingredientUsage d]
    by (simp add: s1 or0_ingredientUsage)
  show "stock_transactions s1 = stock_transactions s @ map (deduction_row orderId) (ingredientUsage s orderId)"
    using deduct_stock_ledger[OF d] by (simp add: s1 deduction_row_def case_prod_beta)
next
  assume h: "authorized t user \<and> 0 < orderId \<and> order_of t orderId = Some order"
    and g: "ord_approved order \<and> ord_status order \<noteq> Cancelled"
  from h obtain rest where f: "filter (\<lambda>r. ord_id r = orderId) (orders t) = order # rest"
    by (auto simp: order_of_def split: list.splits)
  show "approve_order user orderId t = (Inl AlreadyApproved, t)"
    unfolding approve_order_def f list.case using h g by simp
next
  assume h: "authorized t user \<and> 0 < orderId \<and> order_of t orderId = Some order"
    and g: "\<not> (ord_approved order \<and> ord_status order \<noteq> Cancelled) \<and> deduction_exists t orderId"
  from h obtain rest where f: "filter (\<lambda>r. ord_id r = orderId) (orders t) = order # rest"
    by (auto simp: order_of_def split: list.splits)
  show "approve_order user orderId t = (Inl AlreadyDeducted, t)"
    unfolding approve_order_def f list.case using h g by simp
qed

theorem approve_idempotent_witness:
  "approve_order admin 1 ex_pending = (Inr OrderApproved, ex_approved)
 \<and> approve_order admin 1 ex_approved = (Inl AlreadyApproved, ex_approved)
 \<and> stock_of ex_approved 3 = map_option (\<lambda>a. a - total_required ex_pending 1 3) (stock_of ex_pending 3)
 \<and> stock_of ex_pending 3 = Some 3 \<and> stock_of ex_approved 3 = Some 0
 \<and> stock_transactions ex_approved = map (deduction_row 1) [(1, 3), (2, 1), (3, 3)]
 \<and> deduction_exists ex_flag_reset 1
 \<and> approve_order admin 1 ex_flag_reset = (Inl AlreadyDeducted, ex_flag_reset)"
proof -
  let ?row = "\<lparr>ord_id = 1, ord_total_price = 32, ord_type = ''takeaway'', ord_delivery_address = None,
                 ord_promotion_id = None, ord_table_id = None, ord_session_id = ''guest-a'',
                 ord_notes = None, ord_status = Preparing, ord_approved = False\<rparr>"
  have g: "authorized ex_flag_reset admin \<and> (0::int) < 1 \<and> order_of ex_flag_reset 1 = Some ?row"
    by (simp add: ex_defs ledger_defs)
  have d: "deduction_exists ex_flag_reset 1" by (simp add: ex_defs ledger_defs)
  have s: "stock_of ex_pending 3 = Some 3 \<and> stock_of ex_approved 3 = Some 0"
    by (simp add: ex_defs ledger_defs)
  have u: "ingredientUsage ex_pending 1 = [(1, 3), (2, 1), (3, 3)]"
    unfolding ex_pending_def by (rule ex_usage)
  have r: "total_required ex_pending 1 3 = 3"
    unfolding or0_ingredientUsage[symmetric] u by (simp add: or0_def)
  have l: "stock_transactions ex_pending = []" by (simp add: ex_defs)
  from approve_idempotent[of admin 1 ex_pending ex_approved ex_flag_reset ?row] ex_approve g d s u r l
  show ?thesis by simp
qed







text \<open>
  Claim C10. For an existing order and an admin or server user, PUT /orders/:id with
  approved = 1 sets the order's approved flag and the status preparing, leaves the
  ingredient rows and the stock ledger as they are, makes no test of the approved flag
  or of earlier deductions, and succeeds again with the same effect when repeated.
\<close>

theorem put_order_approved:
  "authorized s user \<and> 0 < orderId \<and> order_of s orderId = Some order \<longrightarrow>
   (\<exists>s'. put_order user orderId 1 s = (Inr OrderStatusUpdated, s')
      \<and> orders s' = set_order orderId True Preparing (orders s)
      \<and> map_option (\<lambda>r. (ord_approved r, ord_status r)) (order_of s' orderId) = Some (True, Preparing)
      \<and> ingredients s' = ingredients s \<and> stock_transactions s' = stock_transactions s
      \<and> put_order user orderId 1 s' = (Inr OrderStatusUpdated, s'))"
proof
  assume h: "authorized s user \<and> 0 < orderId \<and> order_of s orderId = Some order"
  from h obtain rest where f: "filter (\<lambda>r. ord_id r = orderId) (orders s) = order # rest"
    by (auto simp: order_of_def split: list.splits)
  let ?s' = "s\<lparr>orders := set_order orderId True Preparing (orders s)\<rparr>"
  have p1: "put_order user orderId 1 s = (Inr OrderStatusUpdated, ?s')"
    using h f by (simp add: put_order_D)
  have f': "filter (\<lambda>r. ord_id r = orderId) (orders ?s') =
      order\<lparr>ord_approved := True, ord_status := Preparing\<rparr> #
      map (\<lambda>r. r\<lparr>ord_approved := True, ord_status := Preparing\<rparr>) rest"
    using f by (simp add: filter_set_order)
  have au: "authorized ?s' user" using h authorized_cong[of ?s' s user] by simp
  have idem: "set_order orderId True Preparing (set_order orderId True Preparing rows) =
      set_order orderId True Preparing rows" for rows
    unfolding set_order_def by (induction rows) auto
  have p2: "put_order user orderId 1 ?s' = (Inr OrderStatusUpdated, ?s')"
    using put_order_D[OF au _ f'] h by (simp add: idem)
  have o: "map_option (\<lambda>r. (ord_approved r, ord_status r)) (order_of ?s' orderId) = Some (True, Preparing)"
    unfolding order_of_def f' by simp
  show "\<exists>s'. put_order user orderId 1 s = (Inr OrderStatusUpdated, s')
      \<and> orders s' = set_order orderId True Preparing (orders s)
      \<and> map_option (\<lambda>r. (ord_approved r, ord_status r)) (order_of s' orderId) = Some (True, Preparing)
      \<and> ingredients s' = ingredients s \<and> stock_transactions s' = stock_transactions s
      \<and> put_order user orderId 1 s' = (Inr OrderStatusUpdated, s')"
    by (rule exI[of _ ?s']) (simp add: p1 p2 o)
qed

theorem put_order_approved_witness:
  "authorized ex_cancelled admin \<and> order_of ex_cancelled 1 \<noteq> None
 \<and> deduction_exists ex_cancelled 1
 \<and> put_order admin 1 1 ex_cancelled = (Inr OrderStatusUpdated, ex_reapproved)
 \<and> ingredients ex_reapproved = ingredients ex_cancelled
 \<and> stock_transactions ex_reapproved = stock_transactions ex_cancelled
 \<and> put_order admin 1 1 ex_reapproved = (Inr OrderStatusUpdated, ex_reapproved)"
proof -
  let ?row = "\<lparr>ord_id = 1, ord_total_price = 32, ord_type = ''takeaway'', ord_delivery_address = None,
                 ord_promotion_id = None, ord_table_id = None, ord_session_id = ''guest-a'',
                 ord_notes = None, ord_status = Cancelled, ord_approved = False\<rparr>"
  have g: "authorized ex_cancelled admin \<and> (0::int) < 1 \<and> order_of ex_cancelled 1 = Some ?row"
    by (simp add: ex_defs ledger_defs)
  have d: "deduction_exists ex_cancelled 1" by (simp add: ex_defs ledger_defs)
  from put_order_approved[of ex_cancelled admin 1 ?row] g d ex_put
  show ?thesis by auto
qed

section \<open>Claims on order admission\<close>











text \<open>
  Claim C7 fails on the code. A guest submission for table 10 whose cart verifies but
  whose total is wrong is rejected with TotalPriceMismatch, and the store it leaves has
  the table marked occupied: the table is written before the promotion reads and the
  final comparison, outside the transaction.
\<close>

theorem rejected_submission_occupies_table:
  "create_order ex_request_local [] ex_pending =
     (Inl (TotalPriceMismatch 62 60), [orderHash ex_request_local ''guest-b''], ex_table_taken)
 \<and> map tbl_status (tables ex_pending) = [''available'']
 \<and> map tbl_status (tables ex_table_taken) = [''occupied'']
 \<and> orders ex_table_taken = orders ex_pending"
  by (simp add: ex_create_local) (simp add: ex_defs)



text \<open>
  Claim C9. When a submission is accepted, the rows it appends to the order lines hold
  exactly one breakfast row per distinct breakfast id of its breakfast cart lines; the
  row belongs to the new order, its quantity is the sum of the quantities of the cart
  lines of that breakfast, and the option rows appended for it are the union of those
  lines' option ids without repetition. The rows present before are kept. When every
  stored order line references a stored order and every stored option row a stored
  order line, the lines of the new order are exactly the appended rows and the option
  rows of each breakfast row are exactly the appended ones. The option and group tables
  are keyed by their ids.
\<close>

theorem breakfast_lines_coalesced:
  assumes "option_key_unique (cat s)" and "group_key_unique (cat s)"
    and "create_order req recent s = (Inr (OrderCreated oid), recent', s')"
  shows "take (length (order_items s)) (order_items s') = order_items s
     \<and> distinct (map oi_breakfast_id (breakfast_rows s s'))
     \<and> set (map oi_breakfast_id (breakfast_rows s s'))
         = set (map (\<lambda>l. Some (bi_breakfast_id l)) (rq_breakfastItems req))
     \<and> list_all (\<lambda>r. oi_order_id r = oid
            \<and> oi_quantity r = summed_quantity (rq_breakfastItems req) (the (oi_breakfast_id r))
            \<and> distinct (options_of_row s s' r)
            \<and> set (options_of_row s s' r) = option_union (rq_breakfastItems req) (the (oi_breakfast_id r)))
          (breakfast_rows s s')
     \<and> (items_reference_orders s \<and> options_reference_items s \<longrightarrow>
          filter (\<lambda>r. oi_order_id r = oid) (order_items s') = added_items s s'
        \<and> list_all (\<lambda>r. map boo_breakfast_option_id
                           (filter (\<lambda>x. boo_order_item_id x = oi_id r) (breakfast_order_options s'))
                         = options_of_row s s' r) (breakfast_rows s s'))"
proof -
  from create_order_success_D[OF assms(3)] obtain sid s1 t m tid s2 ft where
    ac: "admission_checks req recent s = (Inr sid, recent', s1)"
    and vc: "verify_cart (cat s1) req = Inr (t, m)" and tb: "table_step req s1 = Inr (tid, s2)"
    and po: "persist_order req sid tid ft m s2 = Inr (oid, s')" by blast
  note f1 = admission_checks_frame[OF ac]
  note f2 = table_step_frame[OF tb]
  have co: "coalesced m (rq_breakfastItems req)"
    using verify_cart_coalesced[OF _ _ vc] assms(1,2) f1 by simp
  let ?s3 = "insert_items oid (rq_items req) s2"
  from insert_items_rows[of oid "rq_items req" s2] obtain irows where
    i1: "order_items ?s3 = order_items s2 @ irows" and i2: "list_all (\<lambda>r. oi_breakfast_id r = None) irows"
    and i3: "breakfast_order_options ?s3 = breakfast_order_options s2" by blast
  from insert_breakfasts_rows[of oid m ?s3] obtain rows opts where
    b1: "order_items (insert_breakfasts oid m ?s3) = order_items ?s3 @ rows"
    and b2: "breakfast_order_options (insert_breakfasts oid m ?s3) = breakfast_order_options ?s3 @ opts"
    and b3: "list_all2 (\<lambda>r e. oi_order_id r = oid \<and> oi_breakfast_id r = Some (fst e)
            \<and> oi_quantity r = be_quantity (snd e)
            \<and> map boo_breakfast_option_id (filter (\<lambda>x. boo_order_item_id x = oi_id r) opts)
                = be_option_ids (snd e)) rows m"
    by blast
  have oi: "order_items s' = order_items s @ irows @ rows"
    using persist_order_items[OF po] b1 i1 f1 f2 by simp
  have bo: "breakfast_order_options s' = breakfast_order_options s @ opts"
    using persist_order_items[OF po] b2 i3 f1 f2 by simp
  have ai: "added_items s s' = irows @ rows" by (simp add: added_items_def oi)
  have ao: "added_options s s' = opts" by (simp add: added_options_def bo)
  have rs: "list_all (\<lambda>r. oi_breakfast_id r \<noteq> None) rows"
    using b3 by (induction rule: list_all2_induct) auto
  have "filter (\<lambda>r. oi_breakfast_id r \<noteq> None) irows = []"
    using i2 by (auto simp: filter_empty_conv list_all_iff)
  moreover have "filter (\<lambda>r. oi_breakfast_id r \<noteq> None) rows = rows"
    using rs by (auto simp: list_all_iff)
  ultimately have br: "breakfast_rows s s' = rows" by (simp add: breakfast_rows_def ai)
  have ids: "map oi_breakfast_id rows = map (\<lambda>e. Some (fst e)) m"
    using b3 by (induction rule: list_all2_induct) auto
  from co have dm: "distinct (map fst m)" and km: "set (map fst m) = set (map bi_breakfast_id (rq_breakfastItems req))"
    and qm: "list_all (\<lambda>e. be_quantity (snd e) = summed_quantity (rq_breakfastItems req) (fst e)
                       \<and> distinct (be_option_ids (snd e))
                       \<and> set (be_option_ids (snd e)) = option_union (rq_breakfastItems req) (fst e)) m"
    unfolding coalesced_def by blast+
  have mm: "map (\<lambda>e. Some (fst e)) m = map Some (map fst m)" by simp
  have "distinct (map Some (map fst m))"
    using dm by (subst distinct_map) (simp add: inj_on_def)
  then have d: "distinct (map oi_breakfast_id rows)" unfolding ids mm .
  have k: "set (map oi_breakfast_id rows) = set (map (\<lambda>l. Some (bi_breakfast_id l)) (rq_breakfastItems req))"
  proof -
    have "set (map oi_breakfast_id rows) = Some ` set (map fst m)" unfolding ids by auto
    also have "\<dots> = Some ` set (map bi_breakfast_id (rq_breakfastItems req))" unfolding km ..
    also have "\<dots> = set (map (\<lambda>l. Some (bi_breakfast_id l)) (rq_breakfastItems req))" by auto
    finally show ?thesis .
  qed
  have q: "list_all (\<lambda>r. oi_order_id r = oid
            \<and> oi_quantity r = summed_quantity (rq_breakfastItems req) (the (oi_breakfast_id r))
            \<and> distinct (map boo_breakfast_option_id (filter (\<lambda>x. boo_order_item_id x = oi_id r) opts))
            \<and> set (map boo_breakfast_option_id (filter (\<lambda>x. boo_order_item_id x = oi_id r) opts))
                = option_union (rq_breakfastItems req) (the (oi_breakfast_id r))) rows"
    using b3 qm by (rule list_all2_all) simp
  have t: "take (length (order_items s)) (order_items s') = order_items s" by (simp add: oi)
  have c: "take (length (order_items s)) (order_items s') = order_items s
     \<and> distinct (map oi_breakfast_id (breakfast_rows s s'))
     \<and> set (map oi_breakfast_id (breakfast_rows s s'))
         = set (map (\<lambda>l. Some (bi_breakfast_id l)) (rq_breakfastItems req))
     \<and> list_all (\<lambda>r. oi_order_id r = oid
            \<and> oi_quantity r = summed_quantity (rq_breakfastItems req) (the (oi_breakfast_id r))
            \<and> distinct (options_of_row s s' r)
            \<and> set (options_of_row s s' r) = option_union (rq_breakfastItems req) (the (oi_breakfast_id r)))
          (breakfast_rows s s')"
    unfolding br options_of_row_def ao using t d k q by blast
  show ?thesis using c order_rows_appended[OF assms] by blast
qed

theorem breakfast_lines_coalesced_witness:
  "option_key_unique (cat ex_pending) \<and> group_key_unique (cat ex_pending)
 \<and> create_order ex_request [] ex_pending =
      (Inr (OrderCreated 2), [orderHash ex_request ''guest-b''], ex_created)
 \<and> map bi_breakfast_id (rq_breakfastItems ex_request) = [3, 3]
 \<and> map (\<lambda>r. (oi_id r, oi_order_id r, oi_breakfast_id r, oi_quantity r)) (breakfast_rows ex_pending ex_created)
      = [(4, 2, Some 3, 3)]
 \<and> summed_quantity (rq_breakfastItems ex_request) 3 = 3
 \<and> option_union (rq_breakfastItems ex_request) 3 = {11, 13}
 \<and> map (options_of_row ex_pending ex_created) (breakfast_rows ex_pending ex_created) = [[11, 13]]
 \<and> distinct (map oi_breakfast_id (breakfast_rows ex_pending ex_created))
 \<and> list_all (\<lambda>r. oi_order_id r = 2
            \<and> oi_quantity r = summed_quantity (rq_breakfastItems ex_request) (the (oi_breakfast_id r))
            \<and> distinct (options_of_row ex_pending ex_created r)
            \<and> set (options_of_row ex_pending ex_created r)
                = option_union (rq_breakfastItems ex_request) (the (oi_breakfast_id r)))
          (breakfast_rows ex_pending ex_created)
 \<and> items_reference_orders ex_pending \<and> options_reference_items ex_pending
 \<and> map oi_id (filter (\<lambda>r. oi_order_id r = 2) (order_items ex_created)) = map oi_id (added_items ex_pending ex_created)
 \<and> list_all (\<lambda>r. map boo_breakfast_option_id
                    (filter (\<lambda>x. boo_order_item_id x = oi_id r) (breakfast_order_options ex_created))
                  = options_of_row ex_pending ex_created r) (breakfast_rows ex_pending ex_created)"
proof -
  have k: "option_key_unique (cat ex_pending)" "group_key_unique (cat ex_pending)"
    by (simp_all add: option_key_unique_def group_key_unique_def ex_defs)
  have r: "breakfast_rows ex_pending ex_created =
      [\<lparr>oi_id = 4, oi_order_id = 2, oi_item_id = None, oi_breakfast_id = Some 3, oi_quantity = 3,
          oi_unit_price = 13, oi_supplement_id = None\<rparr>]"
    by (simp add: breakfast_rows_def added_items_def ex_defs)
  have o: "options_of_row ex_pending ex_created
      \<lparr>oi_id = 4, oi_order_id = 2, oi_item_id = None, oi_breakfast_id = Some 3, oi_quantity = 3,
          oi_unit_price = 13, oi_supplement_id = None\<rparr> = [11, 13]"
    by (simp add: options_of_row_def added_options_def ex_defs)
  have q: "map bi_breakfast_id (rq_breakfastItems ex_request) = [3, 3]"
    "summed_quantity (rq_breakfastItems ex_request) 3 = 3"
    "option_union (rq_breakfastItems ex_request) 3 = {11, 13}"
    by (auto simp add: summed_quantity_def option_union_def lines_of_def ex_defs)
  have f: "items_reference_orders ex_pending" "options_reference_items ex_pending"
    by (simp_all add: items_reference_orders_def options_reference_items_def ex_defs)
  from breakfast_lines_coalesced[OF k ex_create] ex_create k r o q f
  show ?thesis by simp
qed

end
